theory Spec2Isabelle
  imports Main "HOL-Library.AList" "HOL-Library.Sublist"
begin

section \<open>Data model of the room server (server.js)\<close>

text \<open>
  The server keeps two module-level maps, \<open>rooms\<close> (room id to room object) and
  \<open>playerSockets\<close> (connection id to room id), and schedules one inactivity timer per
  started game with \<open>setTimeout\<close>. \<open>rooms\<close> is iterated by the periodic sweep, so it
  is an association list in insertion order, as a JavaScript \<open>Map\<close> is: \<open>map_of\<close> is
  \<open>get\<close>, \<open>AList.update\<close> is \<open>set\<close>, \<open>AList.delete\<close> is \<open>delete\<close>.

  Strings of the source are \<open>string\<close>. A payload field that a client leaves out
  reads as the empty string, which every check of the source treats like \<open>undefined\<close>
  (\<open>!x\<close>, \<open>x || default\<close>, a failed map lookup, a failed strict comparison with a
  turn symbol). The index of a move is an integer. Timestamps (\<open>Date.now()\<close>) and
  generated ids (\<open>uuidv4()\<close>) are inputs of the event that reads them. An event sent
  with \<open>io.to(room)\<close> is addressed \<open>ToRoom\<close>, one sent with \<open>socket.emit\<close> is addressed
  \<open>ToSocket\<close>; who is in a transport-level room is the transport's business.
\<close>

type_synonym socket_id = string
type_synonym room_id = string

datatype status = waiting | active | finished

record player =
  id_p :: socket_id
  name_p :: string
  avatar :: string
  symbol :: string
  joinedAt :: int
  ready :: bool

record game_state =
  board :: "string list"
  currentTurn :: string
  gameStatus :: status
  winner :: "string option"
  moves :: nat

record room =
  id_r :: room_id
  players :: "player list"
  gameState :: game_state
  created :: int
  private_r :: bool
  timeout :: "nat option"

text \<open>
  \<open>timers\<close> is the runtime's table of pending \<open>setTimeout\<close> callbacks: a handle maps
  to the room id its closure captured (server.js line 191 closes over \<open>room\<close>, the id, not
  over the room object). \<open>clearTimeout h\<close> removes the entry, firing removes it and runs
  the callback. \<open>nextTimer\<close> is the next fresh handle.
\<close>

record server =
  rooms :: "(room_id \<times> room) list"
  playerSockets :: "socket_id \<rightharpoonup> room_id"
  timers :: "nat \<rightharpoonup> room_id"
  nextTimer :: nat

datatype target = ToSocket socket_id | ToRoom room_id

datatype payload =
    ErrorMsg string
  | RoomFullMsg string
  | SymbolTakenMsg string
  | RoomUpdate "player list" game_state room_id
  | GameStart "player list" game_state
  | JoinSuccess room_id player string
  | MoveUpdate int string game_state string
  | GameEnd "string option" game_state string
  | GameReset game_state string
  | PlayerReadyUpdate socket_id bool "player list"
  | PlayerLeft game_state "player list"
  | ChatMessage string string string string int
  | GameTimeout string

type_synonym emitted = "target \<times> payload"

text \<open>
  Every early return and every caught exception of a handler is one of these results.
  The source never produces \<open>OutOfRange\<close>; the constructor exists for the specification's
  \<open>applyMove\<close> only.
\<close>

datatype error =
    ValidationError | RoomFull | SymbolTaken | RoomNotFound | NotAMember
  | InvalidState | WrongTurn | CellOccupied | OutOfRange | InternalFailure

type_synonym result = "error option \<times> emitted list \<times> server"

section \<open>Game engine: checkWinner and the move of makeMove\<close>

text \<open>
  A JavaScript array read \<open>board[i]\<close>: the element when \<open>i\<close> addresses one,
  \<open>undefined\<close> (\<open>None\<close>) otherwise.
\<close>

definition cell :: "string list \<Rightarrow> int \<Rightarrow> string option" where
  "cell b i = (if 0 \<le> i \<and> i < int (length b) then Some (b ! nat i) else None)"

text \<open>Truthiness of a value that is a string or \<open>undefined\<close>.\<close>

definition truthy :: "string option \<Rightarrow> bool" where
  "truthy v = (case v of None \<Rightarrow> False | Some x \<Rightarrow> x \<noteq> '''')"

definition winPatterns :: "(int \<times> int \<times> int) list" where
  "winPatterns =
     [(0,1,2), (3,4,5), (6,7,8),
      (0,3,6), (1,4,7), (2,5,8),
      (0,4,8), (2,4,6)]"

fun checkWinner_patterns :: "(int \<times> int \<times> int) list \<Rightarrow> string list \<Rightarrow> string option" where
  "checkWinner_patterns [] b = None"
| "checkWinner_patterns ((x, y, z) # rest) b =
     (if truthy (cell b x) \<and> cell b x = cell b y \<and> cell b x = cell b z
      then cell b x
      else checkWinner_patterns rest b)"

definition checkWinner :: "string list \<Rightarrow> string option" where
  "checkWinner b =
     (case checkWinner_patterns winPatterns b of
        Some w \<Rightarrow> Some w
      | None \<Rightarrow> if list_all (\<lambda>c. c \<noteq> '''') b then Some ''tie'' else None)"

text \<open>
  The object literal that joinRoom (lines 137-143) and resetRoom (lines 375-381) both
  build, up to the status.
\<close>

definition freshGame :: "status \<Rightarrow> game_state" where
  "freshGame st =
     \<lparr>board = replicate 9 '''', currentTurn = ''X'', gameStatus = st, winner = None, moves = 0\<rparr>"

text \<open>
  The part of the makeMove handler that reads and writes the game state
  (lines 224-259): the three validations in the source's order, the write, the
  evaluation. The result carries what \<open>checkWinner\<close> returned, since the handler
  branches on it again for its events. An index outside the array reads
  \<open>undefined\<close>, and \<open>undefined !== ''\<close> holds, so it takes the third return.
\<close>

definition applyMove :: "game_state \<Rightarrow> int \<Rightarrow> string \<Rightarrow> error + (game_state \<times> string option)" where
  "applyMove gs index mark =
     (if gameStatus gs \<noteq> active then Inl InvalidState
      else if currentTurn gs \<noteq> mark then Inl WrongTurn
      else if cell (board gs) index \<noteq> Some '''' then Inl CellOccupied
      else
        let gs1 = gs\<lparr>board := (board gs)[nat index := mark], moves := moves gs + 1\<rparr> in
        (case checkWinner (board gs1) of
           Some w \<Rightarrow> Inr (gs1\<lparr>gameStatus := finished, winner := Some w\<rparr>, Some w)
         | None \<Rightarrow>
             Inr (gs1\<lparr>currentTurn := (if currentTurn gs1 = ''X'' then ''O'' else ''X'')\<rparr>, None)))"

text \<open>Boards of one game: from the fresh board, by moves that the handler accepts.\<close>

inductive game_reach :: "game_state \<Rightarrow> bool" where
  start: "game_reach (freshGame active)"
| move: "game_reach g \<Longrightarrow> applyMove g i mark = Inr (g', w) \<Longrightarrow> game_reach g'"

fun playMoves :: "game_state \<Rightarrow> (int \<times> string) list \<Rightarrow> game_state option" where
  "playMoves g [] = Some g"
| "playMoves g ((i, mark) # ms) =
     (case applyMove g i mark of Inl e \<Rightarrow> None | Inr (g', w) \<Rightarrow> playMoves g' ms)"

text \<open>A symbol fills one of the eight lines.\<close>

definition line_of :: "string list \<Rightarrow> string \<Rightarrow> bool" where
  "line_of b mark =
     list_ex (\<lambda>(x, y, z). cell b x = Some mark \<and> cell b y = Some mark \<and> cell b z = Some mark)
       winPatterns"

section \<open>Helper functions of the server: resetRoom and leaveRoom\<close>

definition clearTimeout :: "nat \<Rightarrow> (nat \<rightharpoonup> room_id) \<Rightarrow> (nat \<rightharpoonup> room_id)" where
  "clearTimeout h ts = ts(h := None)"

text \<open>\<open>if (roomData.timeout) clearTimeout(roomData.timeout)\<close>\<close>

definition clearRoomTimeout :: "room \<Rightarrow> (nat \<rightharpoonup> room_id) \<Rightarrow> (nat \<rightharpoonup> room_id)" where
  "clearRoomTimeout roomData ts =
     (case timeout roomData of None \<Rightarrow> ts | Some h \<Rightarrow> clearTimeout h ts)"

text \<open>resetRoom, lines 366-384.\<close>

definition resetRoom :: "room_id \<Rightarrow> server \<Rightarrow> server" where
  "resetRoom roomId s =
     (case map_of (rooms s) roomId of
        None \<Rightarrow> s
      | Some roomData \<Rightarrow>
          s\<lparr>rooms := AList.update roomId
                 (roomData\<lparr>timeout := None,
                    gameState :=
                      freshGame (if length (players roomData) = 2 then active else waiting),
                    players := map (\<lambda>p. p\<lparr>ready := False\<rparr>) (players roomData)\<rparr>)
                 (rooms s),
            timers := clearRoomTimeout roomData (timers s)\<rparr>)"

text \<open>
  leaveRoom, lines 386-411. The events carry the room's objects as they are when
  \<open>emit\<close> is called, so \<open>playerLeft\<close> and \<open>roomUpdate\<close> show the status already
  set to finished.
\<close>

definition leaveRoom :: "socket_id \<Rightarrow> room_id \<Rightarrow> server \<Rightarrow> emitted list \<times> server" where
  "leaveRoom socketId roomId s =
     (case map_of (rooms s) roomId of
        None \<Rightarrow> ([], s)
      | Some roomData \<Rightarrow>
          let ps = filter (\<lambda>p. id_p p \<noteq> socketId) (players roomData) in
          if length ps = 0 then
            ([], s\<lparr>rooms := AList.delete roomId (rooms s),
                   timers := clearRoomTimeout roomData (timers s)\<rparr>)
          else
            let wasActive = (gameStatus (gameState roomData) = active);
                gs = (if wasActive then (gameState roomData)\<lparr>gameStatus := finished\<rparr>
                      else gameState roomData)
            in ((if wasActive then [(ToRoom roomId, PlayerLeft gs ps)] else [])
                  @ [(ToRoom roomId, RoomUpdate ps gs roomId)],
                s\<lparr>rooms := AList.update roomId (roomData\<lparr>players := ps, gameState := gs\<rparr>)
                             (rooms s)\<rparr>))"

section \<open>The event handlers of a connection\<close>

text \<open>
  Modelled from the spec: config.json is not among the sources. The specification
  fixes the room capacity (\<open>config.maxPlayersPerRoom\<close>) at 2. The timer's duration
  (\<open>config.gameTimeout\<close>) is not modelled: a pending timer may fire at any time.
\<close>

definition maxPlayersPerRoom :: nat where
  "maxPlayersPerRoom = 2"

text \<open>
  \<open>String.prototype.trim\<close> on the white space that a byte string can show: space,
  tab, line feed, vertical tab, form feed, carriage return.
\<close>

definition isSpace :: "char \<Rightarrow> bool" where
  "isSpace c = (c \<in> set [CHR '' '', CHR 0x09, CHR 0x0A, CHR 0x0B, CHR 0x0C, CHR 0x0D])"

definition trim :: "string \<Rightarrow> string" where
  "trim str = rev (dropWhile isSpace (rev (dropWhile isSpace str)))"

definition defaultAvatar :: string where
  "defaultAvatar = ''https://cdn-icons-png.flaticon.com/512/149/149071.png''"

text \<open>
  The template literal of line 205 reads \<open>req.headers.origin\<close>. No \<open>req\<close> is declared
  in the handler, in the connection callback or at module level (the only bindings of
  that name are the parameters of the HTTP route callbacks, lines 79 and 89), so
  evaluating the argument of \<open>socket.emit('joinSuccess', ...)\<close> throws a ReferenceError
  before \<open>emit\<close> is called, and the \<open>catch\<close> of line 208 runs.
\<close>

definition inviteUrl :: "room_id \<Rightarrow> error + string" where
  "inviteUrl room = Inl InternalFailure"

definition newRoom :: "room_id \<Rightarrow> bool \<Rightarrow> int \<Rightarrow> room" where
  "newRoom room isPrivate now =
     \<lparr>id_r = room, players = [], gameState = freshGame waiting, created = now,
      private_r = isPrivate, timeout = None\<rparr>"

definition newPlayer :: "socket_id \<Rightarrow> string \<Rightarrow> string \<Rightarrow> string \<Rightarrow> int \<Rightarrow> player" where
  "newPlayer sid nm av mark now =
     \<lparr>id_p = sid, name_p = trim nm, avatar = (if av = '''' then defaultAvatar else av),
      symbol = mark, joinedAt = now, ready = False\<rparr>"

text \<open>Lines 125-130: leave the room the connection is mapped to, if any.\<close>

definition leavePrevious :: "server \<Rightarrow> socket_id \<Rightarrow> emitted list \<times> server" where
  "leavePrevious s sid =
     (case playerSockets s sid of
        None \<Rightarrow> ([], s)
      | Some prevRoom \<Rightarrow> if prevRoom = '''' then ([], s) else leaveRoom sid prevRoom s)"

text \<open>Lines 132-150: create the room when the id is unknown, then read it.\<close>

definition lookupOrCreate :: "room_id \<Rightarrow> bool \<Rightarrow> int \<Rightarrow> server \<Rightarrow> room \<times> server" where
  "lookupOrCreate room isPrivate now s =
     (case map_of (rooms s) room of
        Some r \<Rightarrow> (r, s)
      | None \<Rightarrow>
          (newRoom room isPrivate now,
           s\<lparr>rooms := AList.update room (newRoom room isPrivate now) (rooms s)\<rparr>))"

text \<open>
  Lines 185-200, after the player was pushed and \<open>roomUpdate\<close> sent: with two
  players the status and the turn are set (board, winner and moves are left as they
  are), a timer is armed and its handle stored in the room, and \<open>gameStart\<close> is sent.
\<close>

definition startGame :: "room_id \<Rightarrow> room \<Rightarrow> server \<Rightarrow> emitted list \<times> server" where
  "startGame room roomData s =
     (if length (players roomData) = 2 then
        let gs = (gameState roomData)\<lparr>gameStatus := active, currentTurn := ''X''\<rparr>;
            h = nextTimer s
        in ([(ToRoom room, GameStart (players roomData) gs)],
            s\<lparr>rooms := AList.update room (roomData\<lparr>gameState := gs, timeout := Some h\<rparr>) (rooms s),
              timers := (timers s)(h \<mapsto> room),
              nextTimer := h + 1\<rparr>)
      else ([], s))"

text \<open>
  Lines 163-200: record the connection's room, push the player, broadcast
  \<open>roomUpdate\<close> (sent before the status changes), start the game at two players.
\<close>

definition admit :: "server \<Rightarrow> socket_id \<Rightarrow> room_id \<Rightarrow> room \<Rightarrow> player \<Rightarrow> emitted list \<times> server" where
  "admit s sid room roomData player =
     (let roomData1 = roomData\<lparr>players := players roomData @ [player]\<rparr>;
          s1 = s\<lparr>playerSockets := (playerSockets s)(sid \<mapsto> room),
                 rooms := AList.update room roomData1 (rooms s)\<rparr>;
          (started, s2) = startGame room roomData1 s1
      in ((ToRoom room, RoomUpdate (players roomData1) (gameState roomData1) room) # started, s2))"

text \<open>
  joinRoom, lines 114-212. \<open>left\<close> are the events of leaving the previous room. The
  last step is the \<open>joinSuccess\<close> emit, whose argument needs \<open>inviteUrl\<close>; when that
  throws, the \<open>catch\<close> sends \<open>error\<close> to the caller and nothing is undone.
\<close>

definition joinRoom ::
  "server \<Rightarrow> socket_id \<Rightarrow> room_id \<Rightarrow> string \<Rightarrow> string \<Rightarrow> string \<Rightarrow> bool \<Rightarrow> int \<Rightarrow> result" where
  "joinRoom s sid room nm av mark isPrivate now =
     (if room = '''' \<or> nm = '''' \<or> mark = '''' then
        (Some ValidationError, [(ToSocket sid, ErrorMsg ''Missing required fields'')], s)
      else if length nm > 20 \<or> length room > 10 then
        (Some ValidationError, [(ToSocket sid, ErrorMsg ''Name or room ID too long'')], s)
      else
        let (left, s1) = leavePrevious s sid;
            (roomData, s2) = lookupOrCreate room isPrivate now s1
        in
        if length (players roomData) \<ge> maxPlayersPerRoom then
          (Some RoomFull, left @ [(ToSocket sid, RoomFullMsg ''Room is full'')], s2)
        else if list_ex (\<lambda>p. symbol p = mark) (players roomData) then
          (Some SymbolTaken, left @ [(ToSocket sid, SymbolTakenMsg ''Symbol already taken'')], s2)
        else
          let player = newPlayer sid nm av mark now;
              (outs, s3) = admit s2 sid room roomData player
          in (case inviteUrl room of
                Inl e \<Rightarrow>
                  (Some e, left @ outs @ [(ToSocket sid, ErrorMsg ''Failed to join room'')], s3)
              | Inr url \<Rightarrow>
                  (None, left @ outs @ [(ToSocket sid, JoinSuccess room player url)], s3)))"

fun moveErrorMessage :: "error \<Rightarrow> string" where
  "moveErrorMessage InvalidState = ''Game is not active''"
| "moveErrorMessage WrongTurn = ''Not your turn''"
| "moveErrorMessage CellOccupied = ''Cell already occupied''"
| "moveErrorMessage e = ''Failed to make move''"

text \<open>makeMove, lines 214-273.\<close>

definition makeMove :: "server \<Rightarrow> socket_id \<Rightarrow> room_id \<Rightarrow> int \<Rightarrow> string \<Rightarrow> result" where
  "makeMove s sid room index mark =
     (case map_of (rooms s) room of
        None \<Rightarrow> (Some RoomNotFound, [(ToSocket sid, ErrorMsg ''Room not found'')], s)
      | Some roomData \<Rightarrow>
          (case find (\<lambda>p. id_p p = sid) (players roomData) of
             None \<Rightarrow> (Some NotAMember, [(ToSocket sid, ErrorMsg ''Player not in room'')], s)
           | Some player \<Rightarrow>
               (case applyMove (gameState roomData) index mark of
                  Inl e \<Rightarrow> (Some e, [(ToSocket sid, ErrorMsg (moveErrorMessage e))], s)
                | Inr (gs, Some w) \<Rightarrow>
                    (None,
                     [(ToRoom room,
                       GameEnd (if w = ''tie'' then None else Some (name_p player)) gs
                         (if w = ''tie'' then ''tie'' else ''win''))],
                     s\<lparr>rooms := AList.update room (roomData\<lparr>gameState := gs, timeout := None\<rparr>)
                                 (rooms s),
                       timers := clearRoomTimeout roomData (timers s)\<rparr>)
                | Inr (gs, None) \<Rightarrow>
                    (None,
                     [(ToRoom room, MoveUpdate index mark gs (name_p player))],
                     s\<lparr>rooms := AList.update room (roomData\<lparr>gameState := gs\<rparr>) (rooms s)\<rparr>))))"

text \<open>resetGame, lines 275-292. The event reads \<open>roomData.gameState\<close> after the reset.\<close>

definition resetGame :: "server \<Rightarrow> socket_id \<Rightarrow> room_id \<Rightarrow> result" where
  "resetGame s sid room =
     (case map_of (rooms s) room of
        None \<Rightarrow> (Some RoomNotFound, [], s)
      | Some roomData \<Rightarrow>
          (case find (\<lambda>p. id_p p = sid) (players roomData) of
             None \<Rightarrow> (Some NotAMember, [], s)
           | Some player \<Rightarrow>
               let s1 = resetRoom room s;
                   gs = (case map_of (rooms s1) room of
                           Some r \<Rightarrow> gameState r
                         | None \<Rightarrow> gameState roomData)
               in (None, [(ToRoom room, GameReset gs (name_p player))], s1)))"

text \<open>\<open>player.ready = !player.ready\<close> on the first player with the connection's id.\<close>

fun toggleReady :: "socket_id \<Rightarrow> player list \<Rightarrow> player list" where
  "toggleReady sid [] = []"
| "toggleReady sid (p # ps) =
     (if id_p p = sid then p\<lparr>ready := \<not> ready p\<rparr> # ps else p # toggleReady sid ps)"

text \<open>playerReady, lines 294-311.\<close>

definition playerReady :: "server \<Rightarrow> socket_id \<Rightarrow> room_id \<Rightarrow> result" where
  "playerReady s sid room =
     (case map_of (rooms s) room of
        None \<Rightarrow> (Some RoomNotFound, [], s)
      | Some roomData \<Rightarrow>
          (case find (\<lambda>p. id_p p = sid) (players roomData) of
             None \<Rightarrow> (Some NotAMember, [], s)
           | Some player \<Rightarrow>
               let ps = toggleReady sid (players roomData) in
               (None,
                [(ToRoom room, PlayerReadyUpdate sid (\<not> ready player) ps)],
                s\<lparr>rooms := AList.update room (roomData\<lparr>players := ps\<rparr>) (rooms s)\<rparr>)))"

text \<open>chatMessage, lines 313-335.\<close>

definition chatMessage :: "server \<Rightarrow> socket_id \<Rightarrow> room_id \<Rightarrow> string \<Rightarrow> string \<Rightarrow> int \<Rightarrow> result" where
  "chatMessage s sid room message uuid now =
     (case map_of (rooms s) room of
        None \<Rightarrow> (Some RoomNotFound, [], s)
      | Some roomData \<Rightarrow>
          (case find (\<lambda>p. id_p p = sid) (players roomData) of
             None \<Rightarrow> (Some NotAMember, [], s)
           | Some player \<Rightarrow>
               if length (trim message) > 100 then (Some ValidationError, [], s)
               else
                 (None,
                  [(ToRoom room,
                    ChatMessage uuid (name_p player) (avatar player) (trim message) now)],
                  s)))"

text \<open>disconnect, lines 337-345.\<close>

definition disconnect :: "server \<Rightarrow> socket_id \<Rightarrow> result" where
  "disconnect s sid =
     (case playerSockets s sid of
        None \<Rightarrow> (None, [], s)
      | Some room \<Rightarrow>
          if room = '''' then (None, [], s)
          else
            let (left, s1) = leaveRoom sid room s in
            (None, left, s1\<lparr>playerSockets := (playerSockets s1)(sid := None)\<rparr>))"

section \<open>Asynchronous callbacks: the inactivity timer and the sweep\<close>

text \<open>
  The callback of line 191, run for a pending handle: the runtime drops the handle,
  then the callback broadcasts \<open>gameTimeout\<close> and calls \<open>resetRoom\<close> with the room id
  it captured.
\<close>

definition fireTimer :: "nat \<Rightarrow> server \<Rightarrow> emitted list \<times> server" where
  "fireTimer h s =
     (case timers s h of
        None \<Rightarrow> ([], s)
      | Some room \<Rightarrow>
          ([(ToRoom room, GameTimeout ''Game timed out due to inactivity'')],
           resetRoom room (s\<lparr>timers := (timers s)(h := None)\<rparr>)))"

definition inactiveThreshold :: int where
  "inactiveThreshold = 30 * 60 * 1000"

text \<open>The interval callback, lines 414-424.\<close>

definition stale :: "int \<Rightarrow> room \<Rightarrow> bool" where
  "stale now r = (now - created r > inactiveThreshold \<and> length (players r) = 0)"

definition sweep :: "int \<Rightarrow> server \<Rightarrow> server" where
  "sweep now s =
     s\<lparr>rooms := filter (\<lambda>(k, r). \<not> stale now r) (rooms s),
       timers := fold (\<lambda>(k, r) ts. clearRoomTimeout r ts)
                   (filter (\<lambda>(k, r). stale now r) (rooms s)) (timers s)\<rparr>"

section \<open>The server as a transition system\<close>

datatype event =
    JoinRoom room_id string string string bool int
  | MakeMove room_id int string
  | ResetGame room_id
  | PlayerReady room_id
  | Chat room_id string string int
  | Disconnect

datatype action = Client socket_id event | TimerFires nat | Sweep int

fun handle :: "server \<Rightarrow> socket_id \<Rightarrow> event \<Rightarrow> result" where
  "handle s sid (JoinRoom room nm av mark isPrivate now) =
     joinRoom s sid room nm av mark isPrivate now"
| "handle s sid (MakeMove room index mark) = makeMove s sid room index mark"
| "handle s sid (ResetGame room) = resetGame s sid room"
| "handle s sid (PlayerReady room) = playerReady s sid room"
| "handle s sid (Chat room message uuid now) = chatMessage s sid room message uuid now"
| "handle s sid Disconnect = disconnect s sid"

fun step :: "server \<Rightarrow> action \<Rightarrow> emitted list \<times> server" where
  "step s (Client sid ev) = snd (handle s sid ev)"
| "step s (TimerFires h) = fireTimer h s"
| "step s (Sweep now) = ([], sweep now s)"

definition init :: server where
  "init = \<lparr>rooms = [], playerSockets = Map.empty, timers = Map.empty, nextTimer = 0\<rparr>"

inductive reach :: "server \<Rightarrow> bool" where
  reach_init: "reach init"
| reach_step: "reach s \<Longrightarrow> reach (snd (step s a))"

fun run :: "server \<Rightarrow> action list \<Rightarrow> server" where
  "run s [] = s"
| "run s (a # as) = run (snd (step s a)) as"

section \<open>Invariants and the specification's reading of the claims\<close>

text \<open>What holds of the board of one game (used for the single-winner property).\<close>

definition game_inv :: "game_state \<Rightarrow> bool" where
  "game_inv g \<longleftrightarrow>
     (gameStatus g = active \<longrightarrow> (\<forall>m. m \<noteq> '''' \<longrightarrow> \<not> line_of (board g) m)) \<and>
     (\<forall>m1 m2. m1 \<noteq> '''' \<longrightarrow> m2 \<noteq> '''' \<longrightarrow>
        line_of (board g) m1 \<longrightarrow> line_of (board g) m2 \<longrightarrow> m1 = m2)"

text \<open>What holds of every room of a reachable server state.\<close>

definition cell_ok :: "string \<Rightarrow> bool" where
  "cell_ok c = (c = '''' \<or> c = ''X'' \<or> c = ''O'')"

definition room_ok :: "room \<Rightarrow> bool" where
  "room_ok r =
     (length (players r) \<le> 2 \<and> distinct (map symbol (players r)) \<and>
      length (board (gameState r)) = 9 \<and> list_all cell_ok (board (gameState r)) \<and>
      (currentTurn (gameState r) = ''X'' \<or> currentTurn (gameState r) = ''O'') \<and>
      (gameStatus (gameState r) = active \<longrightarrow> length (players r) = 2))"

definition server_ok :: "server \<Rightarrow> bool" where
  "server_ok s = (distinct (map fst (rooms s)) \<and> list_all (\<lambda>(k, r). room_ok r) (rooms s))"

text \<open>
  The specification's \<open>applyMove\<close> (section 4.1), as far as its errors go: the four
  rejections in the order the specification lists them, \<open>OutOfRange\<close> for an index
  outside [0,9).
\<close>

definition spec_applyMove_error :: "game_state \<Rightarrow> int \<Rightarrow> string \<Rightarrow> error option" where
  "spec_applyMove_error gs index mark =
     (if gameStatus gs \<noteq> active then Some InvalidState
      else if mark \<noteq> currentTurn gs then Some WrongTurn
      else if \<not> (0 \<le> index \<and> index < 9) then Some OutOfRange
      else if board gs ! nat index \<noteq> '''' then Some CellOccupied
      else None)"

text \<open>
  The specification's error rule (section 7) for one event: when the handler ends in
  an error, it answered, every event it sent went to the originating connection, and
  the state is the one before.
\<close>

definition scoped :: "socket_id \<Rightarrow> emitted list \<Rightarrow> bool" where
  "scoped sid outs = list_all (\<lambda>(t, p). t = ToSocket sid) outs"

definition error_contained :: "server \<Rightarrow> socket_id \<Rightarrow> event \<Rightarrow> bool" where
  "error_contained s sid ev =
     (case handle s sid ev of
        (None, outs, s') \<Rightarrow> True
      | (Some e, outs, s') \<Rightarrow> outs \<noteq> [] \<and> scoped sid outs \<and> s' = s)"

text \<open>No room gains a player from \<open>s\<close> to \<open>s'\<close>.\<close>

definition players_kept :: "server \<Rightarrow> server \<Rightarrow> bool" where
  "players_kept s s' \<longleftrightarrow>
     (\<forall>k r'. map_of (rooms s') k = Some r' \<longrightarrow>
        (\<exists>r. map_of (rooms s) k = Some r \<and>
             subseq (map id_p (players r')) (map id_p (players r))))"

text \<open>The one event that can add a player.\<close>

fun is_join :: "action \<Rightarrow> bool" where
  "is_join (Client sid (JoinRoom room nm av mark isPrivate now)) = True"
| "is_join a = False"

text \<open>Which handlers answer an error at all: joinRoom and makeMove emit, the others return silently.\<close>

fun answers :: "event \<Rightarrow> bool" where
  "answers (JoinRoom room nm av mark isPrivate now) = True"
| "answers (MakeMove room index mark) = True"
| "answers ev = False"

section \<open>Concrete sessions\<close>

definition alice_joins :: action where
  "alice_joins = Client ''a'' (JoinRoom ''R1'' ''Alice'' '''' ''X'' False 1000)"

definition bob_joins :: action where
  "bob_joins = Client ''b'' (JoinRoom ''R1'' ''Bob'' '''' ''O'' False 2000)"

definition carol_joins :: action where
  "carol_joins = Client ''c'' (JoinRoom ''R1'' ''Carol'' '''' ''O'' False 3000)"

definition alice_p :: player where
  "alice_p = \<lparr>id_p = ''a'', name_p = ''Alice'', avatar = defaultAvatar, symbol = ''X'',
              joinedAt = 1000, ready = False\<rparr>"

definition bob_p :: player where
  "bob_p = \<lparr>id_p = ''b'', name_p = ''Bob'', avatar = defaultAvatar, symbol = ''O'',
            joinedAt = 2000, ready = False\<rparr>"

definition carol_p :: player where
  "carol_p = \<lparr>id_p = ''c'', name_p = ''Carol'', avatar = defaultAvatar, symbol = ''O'',
              joinedAt = 3000, ready = False\<rparr>"

text \<open>Alice and Bob have joined room R1: the game is active, timer 0 is pending.\<close>

definition two_players :: server where
  "two_players = run init [alice_joins, bob_joins]"

text \<open>The game after the moves X:0, O:3, X:1, O:4, X:2.\<close>

definition x_won_game :: game_state where
  "x_won_game =
     \<lparr>board = [''X'', ''X'', ''X'', ''O'', ''O'', '''', '''', '''', ''''], currentTurn = ''X'',
      gameStatus = finished, winner = Some ''X'', moves = 5\<rparr>"

definition two_players_room :: room where
  "two_players_room =
     \<lparr>id_r = ''R1'', players = [alice_p, bob_p], gameState = freshGame active,
      created = 1000, private_r = False, timeout = Some 0\<rparr>"

text \<open>Four moves into the game: X:0, O:3, X:1, O:4. Alice is about to complete the top row.\<close>

definition four_moves :: "action list" where
  "four_moves =
     [Client ''a'' (MakeMove ''R1'' 0 ''X''), Client ''b'' (MakeMove ''R1'' 3 ''O''),
      Client ''a'' (MakeMove ''R1'' 1 ''X''), Client ''b'' (MakeMove ''R1'' 4 ''O'')]"

definition before_win :: server where
  "before_win = run two_players four_moves"

definition before_win_room :: room where
  "before_win_room =
     \<lparr>id_r = ''R1'', players = [alice_p, bob_p],
      gameState =
        \<lparr>board = [''X'', ''X'', '''', ''O'', ''O'', '''', '''', '''', ''''], currentTurn = ''X'',
         gameStatus = active, winner = None, moves = 4\<rparr>,
      created = 1000, private_r = False, timeout = Some 0\<rparr>"

text \<open>Alice alone in room R1.\<close>

definition one_player :: server where
  "one_player = run init [alice_joins]"

text \<open>Bob has disconnected from the running game of \<open>two_players\<close>.\<close>

definition abandoned :: server where
  "abandoned = run two_players [Client ''b'' Disconnect]"

definition abandoned_room :: room where
  "abandoned_room =
     \<lparr>id_r = ''R1'', players = [alice_p], gameState = freshGame finished,
      created = 1000, private_r = False, timeout = Some 0\<rparr>"

text \<open>The room of \<open>abandoned\<close> after timer 0 fired.\<close>

definition timed_out_room :: room where
  "timed_out_room =
     \<lparr>id_r = ''R1'', players = [alice_p], gameState = freshGame waiting,
      created = 1000, private_r = False, timeout = None\<rparr>"

text \<open>
  Alice completed the top row and won, Bob disconnected, Carol joined the room.
\<close>

definition restarted :: server where
  "restarted =
     run before_win [Client ''a'' (MakeMove ''R1'' 2 ''X''), Client ''b'' Disconnect, carol_joins]"

definition restarted_room :: room where
  "restarted_room =
     \<lparr>id_r = ''R1'', players = [alice_p, carol_p],
      gameState = x_won_game\<lparr>gameStatus := active\<rparr>,
      created = 1000, private_r = False, timeout = Some 1\<rparr>"

section \<open>The game engine\<close>

lemma cell_update:
  "0 \<le> i \<Longrightarrow>
     cell (b[nat i := m]) j = (if j = i \<and> i < int (length b) then Some m else cell b j)"
  by (auto simp: cell_def nth_list_update)

lemma cell_Some_range: "cell b i = Some v \<Longrightarrow> 0 \<le> i \<and> i < int (length b)"
  by (simp add: cell_def split: if_splits)

lemma checkWinner_patterns_None:
  "checkWinner_patterns ps b = None \<Longrightarrow> (x, y, z) \<in> set ps \<Longrightarrow>
     \<not> (truthy (cell b x) \<and> cell b x = cell b y \<and> cell b x = cell b z)"
  by (induction ps b rule: checkWinner_patterns.induct)
     (auto simp: truthy_def split: if_splits option.splits)

lemma checkWinner_patterns_Some:
  "checkWinner_patterns ps b = Some v \<Longrightarrow>
     v \<noteq> '''' \<and>
     (\<exists>(x, y, z) \<in> set ps. cell b x = Some v \<and> cell b y = Some v \<and> cell b z = Some v)"
  by (induction ps b rule: checkWinner_patterns.induct)
     (auto simp: truthy_def split: if_splits option.splits)

lemma line_of_iff:
  "line_of b m \<longleftrightarrow>
     (\<exists>(x, y, z) \<in> set winPatterns. cell b x = Some m \<and> cell b y = Some m \<and> cell b z = Some m)"
  by (simp add: line_of_def list_ex_iff)

lemma checkWinner_None_no_line:
  assumes "checkWinner b = None" "m \<noteq> ''''"
  shows "\<not> line_of b m"
proof
  assume "line_of b m"
  then obtain x y z where p: "(x, y, z) \<in> set winPatterns"
    and c: "cell b x = Some m" "cell b y = Some m" "cell b z = Some m"
    by (auto simp: line_of_iff)
  from assms(1) have "checkWinner_patterns winPatterns b = None"
    by (simp add: checkWinner_def split: option.splits if_splits)
  from checkWinner_patterns_None[OF this p] c assms(2) show False
    by (simp add: truthy_def)
qed

lemma line_of_update:
  assumes "cell b i = Some ''''" "line_of (b[nat i := mark]) m" "m \<noteq> mark"
  shows "line_of b m"
proof -
  from assms(1) have r: "0 \<le> i" "i < int (length b)" using cell_Some_range by auto
  from assms(2) obtain x y z where p: "(x, y, z) \<in> set winPatterns"
    and c: "cell (b[nat i := mark]) x = Some m" "cell (b[nat i := mark]) y = Some m"
           "cell (b[nat i := mark]) z = Some m"
    by (auto simp: line_of_iff)
  from c r assms(3) have "cell b x = Some m" "cell b y = Some m" "cell b z = Some m"
    by (auto simp: cell_update split: if_splits)
  with p show ?thesis by (auto simp: line_of_iff)
qed

lemma applyMove_Inr:
  assumes "applyMove g i mark = Inr (g', w)"
  shows "gameStatus g = active" "currentTurn g = mark" "cell (board g) i = Some ''''"
    "board g' = (board g)[nat i := mark]" "moves g' = moves g + 1"
    "w = checkWinner (board g')"
    "w \<noteq> None \<Longrightarrow> gameStatus g' = finished \<and> winner g' = w \<and> currentTurn g' = currentTurn g"
    "w = None \<Longrightarrow> gameStatus g' = active \<and> winner g' = winner g
        \<and> currentTurn g' = (if mark = ''X'' then ''O'' else ''X'')"
  using assms by (auto simp: applyMove_def Let_def split: if_splits option.splits)

lemma freshGame_no_line: "\<not> line_of (board (freshGame st)) m \<or> m = ''''"
  by (auto simp: line_of_iff freshGame_def cell_def winPatterns_def)

lemma game_inv_fresh: "game_inv (freshGame st)"
  using freshGame_no_line by (auto simp: game_inv_def)

lemma game_inv_move:
  assumes "game_inv g" "applyMove g i mark = Inr (g', w)"
  shows "game_inv g'"
proof -
  note f = applyMove_Inr[OF assms(2)]
  have only: "m = mark" if "line_of (board g') m" "m \<noteq> ''''" for m
  proof (rule ccontr)
    assume "m \<noteq> mark"
    with that(1) f(3,4) have "line_of (board g) m" by (auto intro: line_of_update)
    with assms(1) f(1) that(2) show False by (auto simp: game_inv_def)
  qed
  have "\<not> line_of (board g') m" if "gameStatus g' = active" "m \<noteq> ''''" for m
  proof -
    from that(1) f(7) have "w = None" by (cases w) auto
    with f(6) have "checkWinner (board g') = None" by simp
    from checkWinner_None_no_line[OF this that(2)] show ?thesis .
  qed
  with only show ?thesis unfolding game_inv_def by blast
qed

lemma game_reach_inv: "game_reach g \<Longrightarrow> game_inv g"
  by (induction rule: game_reach.induct) (auto intro: game_inv_fresh game_inv_move)

lemma line_checkWinner:
  assumes "line_of b m" "m \<noteq> ''''"
  shows "\<exists>v. checkWinner b = Some v \<and> v \<noteq> '''' \<and> line_of b v"
proof (cases "checkWinner_patterns winPatterns b")
  case None
  from assms obtain x y z where p: "(x, y, z) \<in> set winPatterns"
    and c: "cell b x = Some m" "cell b y = Some m" "cell b z = Some m"
    by (auto simp: line_of_iff)
  from checkWinner_patterns_None[OF None p] c assms(2) show ?thesis by (simp add: truthy_def)
next
  case (Some v)
  from checkWinner_patterns_Some[OF Some] Some show ?thesis
    by (auto simp: checkWinner_def line_of_iff)
qed

lemma playMoves_reach: "game_reach g \<Longrightarrow> playMoves g ms = Some g' \<Longrightarrow> game_reach g'"
proof (induction ms arbitrary: g)
  case Nil
  then show ?case by simp
next
  case (Cons a ms)
  obtain i mark where a: "a = (i, mark)" by (cases a)
  from Cons.prems(2) a obtain g1 w where
    m: "applyMove g i mark = Inr (g1, w)" and r: "playMoves g1 ms = Some g'"
    by (auto split: sum.splits)
  from Cons.prems(1) m have "game_reach g1" by (rule game_reach.move)
  from Cons.IH[OF this r] show ?case .
qed

lemma x_won_game_played:
  "playMoves (freshGame active) [(0, ''X''), (3, ''O''), (1, ''X''), (4, ''O''), (2, ''X'')]
     = Some x_won_game"
  by (simp add: applyMove_def freshGame_def cell_def checkWinner_def winPatterns_def
      truthy_def x_won_game_def eval_nat_numeral)

text \<open>
  C9. On every board that a game reaches from the empty board by moves the makeMove
  handler accepts (the mover is the side to move, the cell is empty, the game is not
  yet decided), the eight lines never show a full line of X together with a full line
  of O, and whatever symbol fills a line is the one \<open>checkWinner\<close> returns.
\<close>

theorem C9_single_winner:
  "game_reach g \<Longrightarrow>
     length winPatterns = 8 \<and>
     \<not> (line_of (board g) ''X'' \<and> line_of (board g) ''O'') \<and>
     (\<forall>m. line_of (board g) m \<and> m \<noteq> '''' \<longrightarrow> checkWinner (board g) = Some m)"
proof -
  assume "game_reach g"
  then have i: "game_inv g" by (rule game_reach_inv)
  then have a: "\<not> (line_of (board g) ''X'' \<and> line_of (board g) ''O'')"
    unfolding game_inv_def by fastforce
  have b: "checkWinner (board g) = Some m" if "line_of (board g) m" "m \<noteq> ''''" for m
  proof -
    from line_checkWinner[OF that] obtain v where
      v: "checkWinner (board g) = Some v" "v \<noteq> ''''" "line_of (board g) v" by blast
    with i that have "v = m" unfolding game_inv_def by blast
    with v show ?thesis by simp
  qed
  have "length winPatterns = 8" by (simp add: winPatterns_def)
  with a b show ?thesis by blast
qed

theorem C9_single_winner_witness:
  "game_reach x_won_game \<and> line_of (board x_won_game) ''X'' \<and>
   \<not> line_of (board x_won_game) ''O'' \<and> checkWinner (board x_won_game) = Some ''X''"
proof -
  have r: "game_reach x_won_game"
    using playMoves_reach[OF game_reach.start x_won_game_played] .
  have l: "line_of (board x_won_game) ''X''"
    by (simp add: line_of_def winPatterns_def x_won_game_def cell_def)
  from C9_single_winner[OF r] r l show ?thesis by auto
qed

section \<open>Invariants of the reachable server states\<close>

lemma list_all_update: "list_all P al \<Longrightarrow> P (k, v) \<Longrightarrow> list_all P (AList.update k v al)"
  by (induction al) auto

lemma list_all_delete: "list_all P al \<Longrightarrow> list_all P (AList.delete k al)"
  by (simp add: AList.delete_eq list_all_iff)

lemma map_of_list_all: "list_all P al \<Longrightarrow> map_of al k = Some v \<Longrightarrow> P (k, v)"
  by (auto simp: list_all_iff dest: map_of_SomeD)

lemma server_ok_lookup: "server_ok s \<Longrightarrow> map_of (rooms s) k = Some r \<Longrightarrow> room_ok r"
  unfolding server_ok_def by (auto dest: map_of_list_all)

lemma server_ok_update:
  "server_ok s \<Longrightarrow> room_ok r \<Longrightarrow> rooms s' = AList.update k r (rooms s) \<Longrightarrow> server_ok s'"
  unfolding server_ok_def by (simp add: list_all_update distinct_update)

lemma server_ok_delete:
  "server_ok s \<Longrightarrow> rooms s' = AList.delete k (rooms s) \<Longrightarrow> server_ok s'"
  unfolding server_ok_def by (simp add: list_all_delete distinct_delete)

lemma server_ok_same: "server_ok s \<Longrightarrow> rooms s' = rooms s \<Longrightarrow> server_ok s'"
  unfolding server_ok_def by simp

lemma room_ok_freshGame:
  "length ps \<le> 2 \<Longrightarrow> distinct (map symbol ps) \<Longrightarrow> (st = active \<longrightarrow> length ps = 2) \<Longrightarrow>
   room_ok (r\<lparr>players := ps, gameState := freshGame st\<rparr>)"
  by (simp add: room_ok_def freshGame_def cell_ok_def list_all_iff)

lemma symbol_ready_comp: "symbol \<circ> ready_update f = symbol"
  by (rule ext) simp

lemma room_ok_timeout: "room_ok (r\<lparr>timeout := t\<rparr>) = room_ok r"
  by (simp add: room_ok_def)

lemma room_ok_reset:
  assumes "room_ok r"
  shows "room_ok (r\<lparr>timeout := None,
            gameState := freshGame (if length (players r) = 2 then active else waiting),
            players := map (\<lambda>p. p\<lparr>ready := False\<rparr>) (players r)\<rparr>)"
proof -
  from assms show ?thesis
    by (simp add: room_ok_def freshGame_def cell_ok_def list_all_iff symbol_ready_comp)
qed

lemma room_ok_leave:
  assumes "room_ok r"
  shows "room_ok (r\<lparr>players := filter P (players r),
            gameState := (if gameStatus (gameState r) = active
                          then (gameState r)\<lparr>gameStatus := finished\<rparr> else gameState r)\<rparr>)"
proof -
  from assms have "length (players r) \<le> 2" by (simp add: room_ok_def)
  from le_trans[OF length_filter_le this] have l: "length (filter P (players r)) \<le> 2" .
  from assms have d: "distinct (map symbol (filter P (players r)))"
    by (simp add: room_ok_def distinct_map_filter)
  from assms l d show ?thesis by (simp add: room_ok_def)
qed

lemma cell_ok_update:
  "list_all cell_ok b \<Longrightarrow> cell_ok m \<Longrightarrow> list_all cell_ok (b[n := m])"
  by (auto simp: list_all_iff dest: set_update_subset_insert[THEN subsetD])

lemma room_ok_move:
  assumes "room_ok r" "applyMove (gameState r) i mark = Inr (gs, w)"
  shows "room_ok (r\<lparr>gameState := gs\<rparr>)"
proof -
  note f = applyMove_Inr[OF assms(2)]
  from assms(1) f(2) have m: "cell_ok mark" by (auto simp: room_ok_def cell_ok_def)
  from assms(1) have "list_all cell_ok (board (gameState r))" by (simp add: room_ok_def)
  from cell_ok_update[OF this m] f(4) have b: "list_all cell_ok (board gs)" by simp
  from f(4) assms(1) have l: "length (board gs) = 9" by (simp add: room_ok_def)
  have t: "currentTurn gs = ''X'' \<or> currentTurn gs = ''O''"
  proof (cases w)
    case None
    with f(8) show ?thesis by auto
  next
    case (Some a)
    with f(7) f(2) assms(1) show ?thesis by (auto simp: room_ok_def)
  qed
  from f(1) assms(1) have "length (players r) = 2" by (simp add: room_ok_def)
  with b l t assms(1) show ?thesis by (simp add: room_ok_def)
qed

lemma map_symbol_toggleReady: "map symbol (toggleReady sid ps) = map symbol ps"
  by (induction ps) auto

lemma length_toggleReady: "length (toggleReady sid ps) = length ps"
  by (induction ps) auto

lemma room_ok_toggle: "room_ok r \<Longrightarrow> room_ok (r\<lparr>players := toggleReady sid (players r)\<rparr>)"
  by (simp add: room_ok_def map_symbol_toggleReady length_toggleReady)

lemma room_ok_newRoom: "room_ok (newRoom room isPrivate now)"
  by (simp add: room_ok_def newRoom_def freshGame_def cell_ok_def list_all_iff)

lemma room_ok_push:
  assumes "room_ok r" "length (players r) < 2" "\<not> list_ex (\<lambda>p. symbol p = symbol pl) (players r)"
  shows "room_ok (r\<lparr>players := players r @ [pl]\<rparr>)"
    and "length (players r @ [pl]) = 2 \<Longrightarrow>
         room_ok (r\<lparr>players := players r @ [pl],
                   gameState := (gameState r)\<lparr>gameStatus := active, currentTurn := ''X''\<rparr>,
                   timeout := Some h\<rparr>)"
  using assms by (auto simp: room_ok_def list_ex_iff)

lemma server_ok_resetRoom:
  assumes "server_ok s"
  shows "server_ok (resetRoom k s)"
proof (cases "map_of (rooms s) k")
  case None
  with assms show ?thesis by (simp add: resetRoom_def)
next
  case (Some r)
  from assms Some have "room_ok r" by (rule server_ok_lookup)
  from room_ok_reset[OF this] assms Some show ?thesis
    by (simp add: resetRoom_def server_ok_def list_all_update distinct_update)
qed

lemma server_ok_leaveRoom:
  assumes "server_ok s"
  shows "server_ok (snd (leaveRoom sid k s))"
proof (cases "map_of (rooms s) k")
  case None
  with assms show ?thesis by (simp add: leaveRoom_def)
next
  case (Some r)
  from assms Some have "room_ok r" by (rule server_ok_lookup)
  from room_ok_leave[OF this, of "\<lambda>p. id_p p \<noteq> sid"] assms Some show ?thesis
    by (simp add: leaveRoom_def server_ok_def list_all_update distinct_update list_all_delete distinct_delete Let_def)
qed

lemma server_ok_leavePrevious: "server_ok s \<Longrightarrow> server_ok (snd (leavePrevious s sid))"
  by (simp add: leavePrevious_def server_ok_leaveRoom split: option.splits)

lemma lookupOrCreate_found:
  "lookupOrCreate room isPrivate now s = (rd, s2) \<Longrightarrow> map_of (rooms s2) room = Some rd"
  by (auto simp: lookupOrCreate_def update_conv' split: option.splits)

lemma server_ok_lookupOrCreate:
  "server_ok s \<Longrightarrow> lookupOrCreate room isPrivate now s = (rd, s2) \<Longrightarrow> server_ok s2"
  by (auto simp: lookupOrCreate_def server_ok_def list_all_update distinct_update room_ok_newRoom
      split: option.splits)

lemma server_ok_admit:
  assumes "server_ok s" "room_ok rd" "length (players rd) < 2"
    "\<not> list_ex (\<lambda>p. symbol p = symbol pl) (players rd)"
  shows "server_ok (snd (admit s sid room rd pl))"
proof -
  note p = room_ok_push[OF assms(2,3,4)]
  show ?thesis
  proof (cases "length (players rd @ [pl]) = 2")
    case True
    from p(2)[OF True] p(1) assms(1) True show ?thesis
      by (simp add: admit_def startGame_def Let_def server_ok_def list_all_update distinct_update)
  next
    case False
    with p(1) assms(1) show ?thesis
      by (simp add: admit_def startGame_def Let_def server_ok_def list_all_update distinct_update)
  qed
qed

lemma server_ok_joinRoom:
  assumes "server_ok s"
  shows "server_ok (snd (snd (joinRoom s sid room nm av mark isPrivate now)))"
proof -
  obtain left s1 where l: "leavePrevious s sid = (left, s1)" by (cases "leavePrevious s sid")
  obtain rd s2 where c: "lookupOrCreate room isPrivate now s1 = (rd, s2)"
    by (cases "lookupOrCreate room isPrivate now s1")
  from assms l have s1: "server_ok s1" using server_ok_leavePrevious[of s sid] by simp
  from server_ok_lookupOrCreate[OF s1 c] have s2: "server_ok s2" .
  from server_ok_lookup[OF s2 lookupOrCreate_found[OF c]] have rd: "room_ok rd" .
  have sym: "symbol (newPlayer sid nm av mark now) = mark" by (simp add: newPlayer_def)
  have adm: "server_ok (snd (admit s2 sid room rd (newPlayer sid nm av mark now)))"
    if "length (players rd) < 2" "\<not> list_ex (\<lambda>p. symbol p = mark) (players rd)"
    using that server_ok_admit[OF s2 rd, of "newPlayer sid nm av mark now"] sym by simp
  from assms s2 adm l c show ?thesis
    by (auto simp: joinRoom_def maxPlayersPerRoom_def inviteUrl_def Let_def
        split: prod.splits)
qed

lemma server_ok_makeMove:
  assumes "server_ok s"
  shows "server_ok (snd (snd (makeMove s sid room index mark)))"
proof (cases "map_of (rooms s) room")
  case None
  with assms show ?thesis by (simp add: makeMove_def)
next
  case (Some rd)
  from assms Some have rd: "room_ok rd" by (rule server_ok_lookup)
  show ?thesis
  proof (cases "applyMove (gameState rd) index mark")
    case (Inl e)
    with assms Some show ?thesis by (simp add: makeMove_def split: option.splits)
  next
    case (Inr res)
    obtain gs w where res: "res = (gs, w)" by (cases res)
    from room_ok_move[OF rd] Inr res have "room_ok (rd\<lparr>gameState := gs\<rparr>)" by simp
    then have "room_ok (rd\<lparr>gameState := gs, timeout := None\<rparr>)" by (simp add: room_ok_def)
    with \<open>room_ok (rd\<lparr>gameState := gs\<rparr>)\<close> assms Some Inr res show ?thesis
      by (simp add: makeMove_def server_ok_def list_all_update distinct_update split: option.splits)
  qed
qed

lemma server_ok_resetGame:
  "server_ok s \<Longrightarrow> server_ok (snd (snd (resetGame s sid room)))"
  by (simp add: resetGame_def server_ok_resetRoom Let_def split: option.splits)

lemma server_ok_playerReady:
  assumes "server_ok s"
  shows "server_ok (snd (snd (playerReady s sid room)))"
proof (cases "map_of (rooms s) room")
  case None
  with assms show ?thesis by (simp add: playerReady_def)
next
  case (Some rd)
  from assms Some have "room_ok rd" by (rule server_ok_lookup)
  from room_ok_toggle[OF this, of sid] assms Some show ?thesis
    by (simp add: playerReady_def server_ok_def list_all_update distinct_update Let_def split: option.splits)
qed

lemma server_ok_chatMessage:
  "server_ok s \<Longrightarrow> server_ok (snd (snd (chatMessage s sid room message uuid now)))"
  by (simp add: chatMessage_def split: option.splits)

lemma server_ok_disconnect:
  assumes "server_ok s"
  shows "server_ok (snd (snd (disconnect s sid)))"
proof -
  have "server_ok (s1\<lparr>playerSockets := f\<rparr>)" if "leaveRoom sid k s = (left, s1)" for k f left s1
  proof -
    from that server_ok_leaveRoom[OF assms, of sid k] have "server_ok s1" by simp
    then show ?thesis by (simp add: server_ok_def)
  qed
  with assms show ?thesis
    by (simp add: disconnect_def split: option.splits prod.splits)
qed

lemma server_ok_fireTimer: "server_ok s \<Longrightarrow> server_ok (snd (fireTimer h s))"
proof -
  assume a: "server_ok s"
  then have "server_ok (s\<lparr>timers := t\<rparr>)" for t by (simp add: server_ok_def)
  from server_ok_resetRoom[OF this] a show ?thesis
    by (simp add: fireTimer_def split: option.splits)
qed

lemma server_ok_sweep: "server_ok s \<Longrightarrow> server_ok (sweep now s)"
  by (simp add: sweep_def server_ok_def list_all_iff distinct_map_filter)

lemma server_ok_step: "server_ok s \<Longrightarrow> server_ok (snd (step s a))"
proof (cases a)
  case (Client sid ev)
  assume "server_ok s"
  then have "server_ok (snd (snd (handle s sid ev)))"
    by (cases ev)
       (simp_all add: server_ok_joinRoom server_ok_makeMove server_ok_resetGame
          server_ok_playerReady server_ok_chatMessage server_ok_disconnect)
  with Client show ?thesis by simp
next
  case (TimerFires h)
  assume "server_ok s"
  with TimerFires show ?thesis by (simp add: server_ok_fireTimer)
next
  case (Sweep now)
  assume "server_ok s"
  with Sweep show ?thesis by (simp add: server_ok_sweep)
qed

lemma server_ok_init: "server_ok init"
  by (simp add: server_ok_def init_def)

lemma reach_server_ok: "reach s \<Longrightarrow> server_ok s"
  by (induction rule: reach.induct) (simp_all add: server_ok_init server_ok_step)

lemma reach_run: "reach s \<Longrightarrow> reach (run s as)"
  by (induction as arbitrary: s) (auto intro: reach_step)

section \<open>The concrete sessions, evaluated\<close>

lemmas handler_defs =
  joinRoom_def leavePrevious_def lookupOrCreate_def admit_def startGame_def newRoom_def
  newPlayer_def inviteUrl_def maxPlayersPerRoom_def trim_def isSpace_def leaveRoom_def
  resetRoom_def clearRoomTimeout_def clearTimeout_def makeMove_def resetGame_def playerReady_def
  chatMessage_def disconnect_def fireTimer_def sweep_def stale_def

lemma two_players_rooms: "rooms two_players = [(''R1'', two_players_room)]"
  by (simp add: two_players_def alice_joins_def bob_joins_def init_def handler_defs
      two_players_room_def alice_p_def bob_p_def freshGame_def Let_def)

lemma two_players_timers: "timers two_players 0 = Some ''R1'' \<and> nextTimer two_players = 1"
  by (simp add: two_players_def alice_joins_def bob_joins_def init_def handler_defs
      two_players_room_def alice_p_def bob_p_def freshGame_def Let_def)

lemma two_players_sockets: "playerSockets two_players = [''a'' \<mapsto> ''R1'', ''b'' \<mapsto> ''R1'']"
  by (simp add: two_players_def alice_joins_def bob_joins_def init_def handler_defs
      two_players_room_def alice_p_def bob_p_def freshGame_def Let_def)

lemma two_players_timers_all: "timers two_players = [0 \<mapsto> ''R1'']"
  by (simp add: two_players_def alice_joins_def bob_joins_def init_def handler_defs
      two_players_room_def alice_p_def bob_p_def freshGame_def Let_def)

lemma two_players_eq: "two_players = \<lparr>rooms = [(''R1'', two_players_room)], playerSockets = [''a'' \<mapsto> ''R1'', ''b'' \<mapsto> ''R1''], timers = [0 \<mapsto> ''R1''], nextTimer = 1\<rparr>"
  by (simp add: two_players_def alice_joins_def bob_joins_def init_def handler_defs
      two_players_room_def alice_p_def bob_p_def freshGame_def Let_def)

lemmas engine_defs =
  applyMove_def cell_def checkWinner_def winPatterns_def truthy_def freshGame_def

lemma two_players_state:
  "two_players =
     \<lparr>rooms = [(''R1'', two_players_room)],
      playerSockets = [''a'' \<mapsto> ''R1'', ''b'' \<mapsto> ''R1''], timers = [0 \<mapsto> ''R1''], nextTimer = 1\<rparr>"
  by (simp add: two_players_def alice_joins_def bob_joins_def init_def handler_defs
      two_players_room_def alice_p_def bob_p_def freshGame_def Let_def)

lemma reach_two_players: "reach two_players"
  unfolding two_players_def by (rule reach_run[OF reach_init])

lemma leavePrevious_unmapped: "playerSockets s sid = None \<Longrightarrow> leavePrevious s sid = ([], s)"
  by (simp add: leavePrevious_def)

lemma before_win_state:
  "before_win =
     \<lparr>rooms = [(''R1'', before_win_room)],
      playerSockets = [''a'' \<mapsto> ''R1'', ''b'' \<mapsto> ''R1''], timers = [0 \<mapsto> ''R1''], nextTimer = 1\<rparr>"
  by (simp add: before_win_def four_moves_def two_players_state two_players_room_def
      before_win_room_def makeMove_def engine_defs alice_p_def bob_p_def eval_nat_numeral)

lemma reach_before_win: "reach before_win"
  unfolding before_win_def by (rule reach_run[OF reach_two_players])

lemma two_players_alice:
  "map_of (rooms two_players) ''R1'' = Some two_players_room"
  "find (\<lambda>p. id_p p = ''a'') (players two_players_room) = Some alice_p"
  by (simp_all add: two_players_rooms two_players_room_def alice_p_def bob_p_def)

lemma before_win_alice:
  "map_of (rooms before_win) ''R1'' = Some before_win_room"
  "find (\<lambda>p. id_p p = ''a'') (players before_win_room) = Some alice_p"
  by (simp_all add: before_win_state before_win_room_def alice_p_def bob_p_def)

lemma before_win_move: "applyMove (gameState before_win_room) 2 ''X'' = Inr (x_won_game, Some ''X'')"
  by (simp add: before_win_room_def x_won_game_def engine_defs eval_nat_numeral)

lemma one_player_state:
  "one_player =
     \<lparr>rooms = [(''R1'', \<lparr>id_r = ''R1'', players = [alice_p], gameState = freshGame waiting,
                created = 1000, private_r = False, timeout = None\<rparr>)],
      playerSockets = [''a'' \<mapsto> ''R1''], timers = Map.empty, nextTimer = 0\<rparr>"
  by (simp add: one_player_def alice_joins_def init_def handler_defs alice_p_def Let_def)

lemma abandoned_state:
  "abandoned =
     \<lparr>rooms = [(''R1'', abandoned_room)],
      playerSockets = [''a'' \<mapsto> ''R1''], timers = [0 \<mapsto> ''R1''], nextTimer = 1\<rparr>"
  by (simp add: abandoned_def two_players_state two_players_room_def abandoned_room_def
      handler_defs alice_p_def bob_p_def freshGame_def Let_def fun_upd_twist)

lemma restarted_state:
  "restarted =
     \<lparr>rooms = [(''R1'', restarted_room)],
      playerSockets = [''a'' \<mapsto> ''R1'', ''c'' \<mapsto> ''R1''], timers = [1 \<mapsto> ''R1''], nextTimer = 2\<rparr>"
  by (simp add: restarted_def before_win_state before_win_room_def restarted_room_def
      x_won_game_def carol_joins_def handler_defs engine_defs alice_p_def bob_p_def carol_p_def
      Let_def eval_nat_numeral fun_upd_twist)

lemma reach_restarted: "reach restarted"
  unfolding restarted_def by (rule reach_run[OF reach_before_win])

section \<open>Room capacity and symbols\<close>

lemma players_kept_same: "rooms s' = rooms s \<Longrightarrow> players_kept s s'"
  by (simp add: players_kept_def)

lemma players_kept_update:
  "map_of (rooms s) k0 = Some r \<Longrightarrow> subseq (map id_p (players r')) (map id_p (players r)) \<Longrightarrow>
   rooms s' = AList.update k0 r' (rooms s) \<Longrightarrow> players_kept s s'"
  by (auto simp: players_kept_def update_conv')

lemma players_kept_delete:
  "rooms s' = AList.delete k0 (rooms s) \<Longrightarrow> players_kept s s'"
  by (auto simp: players_kept_def delete_conv' split: if_splits)

lemma players_kept_trans: "players_kept s s1 \<Longrightarrow> players_kept s1 s2 \<Longrightarrow> players_kept s s2"
  unfolding players_kept_def by (meson subseq_order.order_trans)

lemma id_p_ready_comp: "id_p \<circ> ready_update f = id_p"
  by (rule ext) simp

lemma map_id_p_toggleReady: "map id_p (toggleReady sid ps) = map id_p ps"
  by (induction ps) auto

lemma subseq_map_filter: "subseq (map f (filter P xs)) (map f xs)"
  by (simp add: subseq_map)

lemma players_kept_resetRoom: "players_kept s (resetRoom k s)"
proof (cases "map_of (rooms s) k")
  case None
  then show ?thesis by (simp add: resetRoom_def players_kept_same)
next
  case (Some r)
  show ?thesis
    by (rule players_kept_update[OF Some, where r' = "r\<lparr>timeout := None,
                    gameState :=
                      freshGame (if length (players r) = 2 then active else waiting),
                    players := map (\<lambda>p. p\<lparr>ready := False\<rparr>) (players r)\<rparr>"])
       (simp_all add: resetRoom_def Some id_p_ready_comp)
qed

lemma players_kept_leaveRoom: "players_kept s (snd (leaveRoom sid k s))"
proof (cases "map_of (rooms s) k")
  case None
  then show ?thesis by (simp add: leaveRoom_def players_kept_same)
next
  case (Some r)
  show ?thesis
  proof (cases "filter (\<lambda>p. id_p p \<noteq> sid) (players r) = []")
    case True
    with Some show ?thesis
      by (auto simp: leaveRoom_def intro!: players_kept_delete[where ?k0.0 = k])
  next
    case False
    let ?gs = "if gameStatus (gameState r) = active
               then (gameState r)\<lparr>gameStatus := finished\<rparr> else gameState r"
    show ?thesis
      by (rule players_kept_update[OF Some, where
            r' = "r\<lparr>players := filter (\<lambda>p. id_p p \<noteq> sid) (players r), gameState := ?gs\<rparr>"])
         (simp_all add: leaveRoom_def Some False Let_def subseq_map_filter)
  qed
qed

lemma players_kept_makeMove: "players_kept s (snd (snd (makeMove s sid room index mark)))"
proof (cases "map_of (rooms s) room")
  case None
  then show ?thesis by (simp add: makeMove_def players_kept_same)
next
  case (Some r)
  have "players_kept s (s\<lparr>rooms := AList.update room (r\<lparr>gameState := gs, timeout := t\<rparr>) (rooms s),
                          timers := ts\<rparr>)" for gs t ts
    by (rule players_kept_update[OF Some, where r' = "r\<lparr>gameState := gs, timeout := t\<rparr>"]) simp_all
  moreover have "players_kept s (s\<lparr>rooms := AList.update room (r\<lparr>gameState := gs\<rparr>) (rooms s)\<rparr>)" for gs
    by (rule players_kept_update[OF Some, where r' = "r\<lparr>gameState := gs\<rparr>"]) simp_all
  ultimately show ?thesis using Some
    by (simp add: makeMove_def players_kept_same split: option.splits sum.splits prod.splits)
qed

lemma players_kept_resetGame: "players_kept s (snd (snd (resetGame s sid room)))"
  by (simp add: resetGame_def players_kept_same players_kept_resetRoom Let_def split: option.splits)

lemma players_kept_playerReady: "players_kept s (snd (snd (playerReady s sid room)))"
proof (cases "map_of (rooms s) room")
  case None
  then show ?thesis by (simp add: playerReady_def players_kept_same)
next
  case (Some r)
  have "players_kept s (s\<lparr>rooms := AList.update room (r\<lparr>players := toggleReady sid (players r)\<rparr>) (rooms s)\<rparr>)"
    by (rule players_kept_update[OF Some, where r' = "r\<lparr>players := toggleReady sid (players r)\<rparr>"])
       (simp_all add: map_id_p_toggleReady)
  with Some show ?thesis
    by (simp add: playerReady_def players_kept_same Let_def split: option.splits)
qed

lemma players_kept_chatMessage:
  "players_kept s (snd (snd (chatMessage s sid room message uuid now)))"
  by (simp add: chatMessage_def players_kept_same split: option.splits)

lemma players_kept_disconnect: "players_kept s (snd (snd (disconnect s sid)))"
proof -
  have "players_kept s (s1\<lparr>playerSockets := f\<rparr>)" if "leaveRoom sid k s = (left, s1)" for k f left s1
  proof -
    from that players_kept_leaveRoom[of s sid k] have "players_kept s s1" by simp
    then show ?thesis by (simp add: players_kept_def)
  qed
  then show ?thesis
    by (simp add: disconnect_def players_kept_same split: option.splits prod.splits)
qed

lemma players_kept_fireTimer: "players_kept s (snd (fireTimer h s))"
proof (cases "timers s h")
  case None
  then show ?thesis by (simp add: fireTimer_def players_kept_same)
next
  case (Some k)
  have "players_kept s (s\<lparr>timers := (timers s)(h := None)\<rparr>)" by (simp add: players_kept_same)
  from players_kept_trans[OF this players_kept_resetRoom] Some show ?thesis
    by (simp add: fireTimer_def)
qed

lemma players_kept_sweep:
  assumes "distinct (map fst (rooms s))"
  shows "players_kept s (sweep now s)"
proof -
  have "map_of (rooms s) k = Some r'"
    if "map_of (filter (\<lambda>(k, r). \<not> stale now r) (rooms s)) k = Some r'" for k r'
  proof -
    from that have "(k, r') \<in> set (rooms s)" by (auto dest: map_of_SomeD)
    with assms show ?thesis by simp
  qed
  then show ?thesis by (auto simp: players_kept_def sweep_def)
qed

lemma players_kept_step:
  assumes "server_ok s" "\<not> is_join a"
  shows "players_kept s (snd (step s a))"
proof (cases a)
  case (Client sid ev)
  with assms(2) show ?thesis
    by (cases ev)
       (simp_all add: players_kept_makeMove players_kept_resetGame players_kept_playerReady
          players_kept_chatMessage players_kept_disconnect)
next
  case (TimerFires h)
  then show ?thesis by (simp add: players_kept_fireTimer)
next
  case (Sweep now)
  with assms(1) show ?thesis by (simp add: players_kept_sweep server_ok_def)
qed

lemma joinRoom_rejects:
  assumes "room \<noteq> ''''" "nm \<noteq> ''''" "mark \<noteq> ''''" "length nm \<le> 20" "length room \<le> 10"
    "leavePrevious s sid = (left, s1)" "map_of (rooms s1) room = Some rd"
  shows "length (players rd) \<ge> 2 \<Longrightarrow>
           joinRoom s sid room nm av mark isPrivate now =
             (Some RoomFull, left @ [(ToSocket sid, RoomFullMsg ''Room is full'')], s1)"
    and "length (players rd) < 2 \<Longrightarrow> mark \<in> symbol ` set (players rd) \<Longrightarrow>
           joinRoom s sid room nm av mark isPrivate now =
             (Some SymbolTaken, left @ [(ToSocket sid, SymbolTakenMsg ''Symbol already taken'')], s1)"
  using assms
  by (auto simp: joinRoom_def lookupOrCreate_def maxPlayersPerRoom_def list_ex_iff)

text \<open>
  C5. In every reachable state each room has at most two players, with pairwise
  different symbols. A join that passes validation is refused with RoomFull when the
  room (as it is after the caller left its previous room) has two players, and with
  SymbolTaken when a player of the room has the requested symbol; the state is then
  the one after leaving the previous room. No action other than joinRoom adds a
  player: the connection ids of a room after the action are a subsequence of those
  before.
\<close>

theorem C5_capacity_and_symbols:
  assumes "reach s"
  shows "(\<forall>k r. map_of (rooms s) k = Some r \<longrightarrow>
            length (players r) \<le> 2 \<and> distinct (map symbol (players r))) \<and>
         (\<forall>sid room nm av mark isPrivate now left s1 rd.
            room \<noteq> '''' \<and> nm \<noteq> '''' \<and> mark \<noteq> '''' \<and> length nm \<le> 20 \<and> length room \<le> 10 \<and>
            leavePrevious s sid = (left, s1) \<and> map_of (rooms s1) room = Some rd \<longrightarrow>
              (length (players rd) \<ge> 2 \<longrightarrow>
                 joinRoom s sid room nm av mark isPrivate now =
                   (Some RoomFull, left @ [(ToSocket sid, RoomFullMsg ''Room is full'')], s1)) \<and>
              (length (players rd) < 2 \<and> mark \<in> symbol ` set (players rd) \<longrightarrow>
                 joinRoom s sid room nm av mark isPrivate now =
                   (Some SymbolTaken,
                    left @ [(ToSocket sid, SymbolTakenMsg ''Symbol already taken'')], s1))) \<and>
         (\<forall>a k r'. \<not> is_join a \<and> map_of (rooms (snd (step s a))) k = Some r' \<longrightarrow>
            (\<exists>r. map_of (rooms s) k = Some r \<and>
                 subseq (map id_p (players r')) (map id_p (players r))))"
proof -
  from assms have ok: "server_ok s" by (rule reach_server_ok)
  have a: "length (players r) \<le> 2 \<and> distinct (map symbol (players r))"
    if "map_of (rooms s) k = Some r" for k r
  proof -
    from ok that have "room_ok r" by (rule server_ok_lookup)
    then show ?thesis by (simp add: room_ok_def)
  qed
  have c: "\<exists>r. map_of (rooms s) k = Some r \<and>
              subseq (map id_p (players r')) (map id_p (players r))"
    if "\<not> is_join a" "map_of (rooms (snd (step s a))) k = Some r'" for a k r'
    using players_kept_step[OF ok that(1)] that(2) by (simp add: players_kept_def)
  from a c show ?thesis
    by (intro conjI allI impI) (blast intro: joinRoom_rejects)+
qed

theorem C5_capacity_and_symbols_witness:
  "reach two_players \<and> map_of (rooms two_players) ''R1'' = Some two_players_room \<and>
   length (players two_players_room) = 2 \<and>
   map symbol (players two_players_room) = [''X'', ''O''] \<and>
   joinRoom two_players ''c'' ''R1'' ''Carol'' '''' ''X'' False 3000 =
     (Some RoomFull, [(ToSocket ''c'', RoomFullMsg ''Room is full'')], two_players) \<and>
   subseq (map id_p (players two_players_room)) (map id_p (players two_players_room))"
proof -
  have m: "map_of (rooms two_players) ''R1'' = Some two_players_room"
    by (simp add: two_players_rooms)
  have l: "leavePrevious two_players ''c'' = ([], two_players)"
    by (rule leavePrevious_unmapped) (simp add: two_players_sockets)
  have p: "length (players two_players_room) = 2"
    "map symbol (players two_players_room) = [''X'', ''O'']"
    by (simp_all add: two_players_room_def alice_p_def bob_p_def)
  from C5_capacity_and_symbols[OF reach_two_players] have
    "joinRoom two_players ''c'' ''R1'' ''Carol'' '''' ''X'' False 3000 =
       (Some RoomFull, [] @ [(ToSocket ''c'', RoomFullMsg ''Room is full'')], two_players)"
    using m l p(1) by (elim conjE) (drule spec[of _ "''c''"], drule spec[of _ "''R1''"], drule spec[of _ "''Carol''"], auto)
  with reach_two_players m p show ?thesis by simp
qed

section \<open>Moves\<close>

lemma cell_in_range: "0 \<le> i \<Longrightarrow> i < int (length b) \<Longrightarrow> cell b i = Some (b ! nat i)"
  by (simp add: cell_def)

lemma map_of_update_same: "map_of (AList.update k v al) k = Some v"
  by (simp add: update_conv')

lemma applyMove_accepts:
  assumes "gameStatus g = active" "currentTurn g = mark" "cell (board g) i = Some []"
  shows "\<exists>g' w. applyMove g i mark = Inr (g', w)"
  using assms by (cases "checkWinner ((board g)[nat i := mark])") (simp_all add: applyMove_def)

lemma makeMove_member:
  assumes "map_of (rooms s) room = Some rd" "find (\<lambda>p. id_p p = sid) (players rd) = Some p"
  shows "applyMove (gameState rd) index mark = Inl e \<Longrightarrow>
           makeMove s sid room index mark =
             (Some e, [(ToSocket sid, ErrorMsg (moveErrorMessage e))], s)"
    and "applyMove (gameState rd) index mark = Inr (gs, Some w) \<Longrightarrow>
           makeMove s sid room index mark =
             (None,
              [(ToRoom room,
                GameEnd (if w = ''tie'' then None else Some (name_p p)) gs
                  (if w = ''tie'' then ''tie'' else ''win''))],
              s\<lparr>rooms := AList.update room (rd\<lparr>gameState := gs, timeout := None\<rparr>) (rooms s),
                timers := clearRoomTimeout rd (timers s)\<rparr>)"
    and "applyMove (gameState rd) index mark = Inr (gs, None) \<Longrightarrow>
           makeMove s sid room index mark =
             (None, [(ToRoom room, MoveUpdate index mark gs (name_p p))],
              s\<lparr>rooms := AList.update room (rd\<lparr>gameState := gs\<rparr>) (rooms s)\<rparr>)"
  using assms by (simp_all add: makeMove_def)

lemma makeMove_accepted_room:
  assumes "map_of (rooms s) room = Some rd" "find (\<lambda>p. id_p p = sid) (players rd) = Some p"
    "applyMove (gameState rd) index mark = Inr (gs, w)"
  shows "fst (makeMove s sid room index mark) = None"
    and "\<exists>rd'. map_of (rooms (snd (snd (makeMove s sid room index mark)))) room = Some rd' \<and>
               gameState rd' = gs \<and> players rd' = players rd"
  using makeMove_member(2,3)[OF assms(1,2)] assms(3)
  by (cases w; simp add: map_of_update_same)+

text \<open>
  C3. A move that the handler accepts (the game is active, the symbol is the side to
  move, the index is one of the nine cells and that cell is empty) writes the symbol
  into the cell, adds one to the move count and evaluates the new board: when
  \<open>checkWinner\<close> decides it (a symbol or tie) the game is finished and the winner
  stored, otherwise the game stays active and the turn passes to the other symbol.
\<close>

theorem C3_accepted_move:
  assumes "reach s" "map_of (rooms s) room = Some rd"
    "find (\<lambda>p. id_p p = sid) (players rd) = Some p"
    "gameStatus (gameState rd) = active" "mark = currentTurn (gameState rd)"
    "0 \<le> index" "index < 9" "board (gameState rd) ! nat index = ''''"
  shows "\<exists>rd'. fst (makeMove s sid room index mark) = None \<and>
           map_of (rooms (snd (snd (makeMove s sid room index mark)))) room = Some rd' \<and>
           board (gameState rd') = (board (gameState rd))[nat index := mark] \<and>
           moves (gameState rd') = moves (gameState rd) + 1 \<and>
           (case checkWinner (board (gameState rd')) of
              Some w \<Rightarrow> gameStatus (gameState rd') = finished \<and> winner (gameState rd') = Some w
            | None \<Rightarrow>
                gameStatus (gameState rd') = active \<and>
                (mark = ''X'' \<and> currentTurn (gameState rd') = ''O'' \<or>
                 mark = ''O'' \<and> currentTurn (gameState rd') = ''X''))"
proof -
  from assms(1) have "server_ok s" by (rule reach_server_ok)
  from this assms(2) have ok: "room_ok rd" by (rule server_ok_lookup)
  then have len: "length (board (gameState rd)) = 9"
    and turn: "currentTurn (gameState rd) = ''X'' \<or> currentTurn (gameState rd) = ''O''"
    by (simp_all add: room_ok_def)
  from assms(6,7,8) len have c: "cell (board (gameState rd)) index = Some ''''"
    by (simp add: cell_in_range)
  from applyMove_accepts[OF assms(4) assms(5)[symmetric] c]
  obtain gs w where a: "applyMove (gameState rd) index mark = Inr (gs, w)" by blast
  note f = applyMove_Inr[OF a]
  from makeMove_accepted_room[OF assms(2,3) a] obtain rd' where
    r: "fst (makeMove s sid room index mark) = None"
       "map_of (rooms (snd (snd (makeMove s sid room index mark)))) room = Some rd'"
       "gameState rd' = gs" by blast
  have "case checkWinner (board gs) of
          Some w \<Rightarrow> gameStatus gs = finished \<and> winner gs = Some w
        | None \<Rightarrow> gameStatus gs = active \<and>
            (mark = ''X'' \<and> currentTurn gs = ''O'' \<or> mark = ''O'' \<and> currentTurn gs = ''X'')"
  proof (cases w)
    case None
    with f(6) have cw: "checkWinner (board gs) = None" by simp
    from f(8)[OF None] turn assms(5) cw show ?thesis by auto
  next
    case (Some v)
    with f(6) have cw: "checkWinner (board gs) = Some v" by simp
    from f(7) Some have "gameStatus gs = finished \<and> winner gs = Some v" by simp
    with cw show ?thesis by simp
  qed
  with r f(4,5) show ?thesis by auto
qed

theorem C3_accepted_move_witness:
  "\<exists>rd'. map_of (rooms (snd (snd (makeMove two_players ''a'' ''R1'' 0 ''X'')))) ''R1'' = Some rd' \<and>
         board (gameState rd') = [''X'', '''', '''', '''', '''', '''', '''', '''', ''''] \<and>
         moves (gameState rd') = 1 \<and> gameStatus (gameState rd') = active \<and>
         currentTurn (gameState rd') = ''O''"
proof -
  have g: "gameState two_players_room = freshGame active" by (simp add: two_players_room_def)
  have h: "gameStatus (gameState two_players_room) = active"
    "''X'' = currentTurn (gameState two_players_room)"
    "(0::int) \<le> 0" "(0::int) < 9" "board (gameState two_players_room) ! nat 0 = ''''"
    by (simp_all add: g freshGame_def)
  from C3_accepted_move[OF reach_two_players two_players_alice h]
  obtain rd' where r:
    "map_of (rooms (snd (snd (makeMove two_players ''a'' ''R1'' 0 ''X'')))) ''R1'' = Some rd'"
    "board (gameState rd') = (board (gameState two_players_room))[nat 0 := ''X'']"
    "moves (gameState rd') = moves (gameState two_players_room) + 1"
    "case checkWinner (board (gameState rd')) of
       Some w \<Rightarrow> gameStatus (gameState rd') = finished \<and> winner (gameState rd') = Some w
     | None \<Rightarrow> gameStatus (gameState rd') = active \<and>
         (''X'' = ''X'' \<and> currentTurn (gameState rd') = ''O'' \<or>
          ''X'' = ''O'' \<and> currentTurn (gameState rd') = ''X'')"
    by blast
  from r(2) have b: "board (gameState rd') = [''X'', '''', '''', '''', '''', '''', '''', '''', '''']"
    by (simp add: g freshGame_def eval_nat_numeral)
  have "checkWinner [''X'', '''', '''', '''', '''', '''', '''', '''', ''''] = None"
    by (simp add: engine_defs)
  with r(4) b have "gameStatus (gameState rd') = active \<and> currentTurn (gameState rd') = ''O''"
    by simp
  with r(1,3) b show ?thesis by (simp add: g freshGame_def)
qed

lemma cell_ok_cell: "list_all cell_ok b \<Longrightarrow> cell b i = Some v \<Longrightarrow> cell_ok v"
  by (auto simp: cell_def list_all_iff split: if_splits)

lemma checkWinner_values:
  assumes "list_all cell_ok b" "checkWinner b = Some w"
  shows "w = ''X'' \<or> w = ''O'' \<or> w = ''tie''"
proof (cases "checkWinner_patterns winPatterns b")
  case None
  with assms(2) show ?thesis by (simp add: checkWinner_def split: if_splits)
next
  case (Some v)
  from checkWinner_patterns_Some[OF Some] obtain x where "v \<noteq> ''''" "cell b x = Some v"
    by auto
  with cell_ok_cell[OF assms(1)] have "v = ''X'' \<or> v = ''O''" by (auto simp: cell_ok_def)
  moreover from Some assms(2) have "w = v" by (simp add: checkWinner_def)
  ultimately show ?thesis by blast
qed

text \<open>
  C10. When a member's move is accepted and \<open>checkWinner\<close> decides the game, the one
  event sent is \<open>gameEnd\<close> to the room; its \<open>winner\<close> field is the display name of the
  player whose connection sent the move, or null when the result is tie, while the
  stored \<open>gameState.winner\<close> is what \<open>checkWinner\<close> returned: X, O or tie.
\<close>

theorem C10_gameEnd_winner:
  assumes "reach s" "map_of (rooms s) room = Some rd"
    "find (\<lambda>p. id_p p = sid) (players rd) = Some p"
    "applyMove (gameState rd) index mark = Inr (gs, Some w)"
  shows "fst (snd (makeMove s sid room index mark)) =
           [(ToRoom room,
             GameEnd (if w = ''tie'' then None else Some (name_p p)) gs
               (if w = ''tie'' then ''tie'' else ''win''))] \<and>
         winner gs = Some w \<and> (w = ''X'' \<or> w = ''O'' \<or> w = ''tie'') \<and>
         (\<exists>rd'. map_of (rooms (snd (snd (makeMove s sid room index mark)))) room = Some rd' \<and>
                gameState rd' = gs)"
proof -
  from assms(1) have "server_ok s" by (rule reach_server_ok)
  from this assms(2) have ok: "room_ok rd" by (rule server_ok_lookup)
  note f = applyMove_Inr[OF assms(4)]
  from room_ok_move[OF ok assms(4)] have "list_all cell_ok (board gs)" by (simp add: room_ok_def)
  from checkWinner_values[OF this] f(6) have v: "w = ''X'' \<or> w = ''O'' \<or> w = ''tie''" by simp
  from f(7) have win: "winner gs = Some w" by simp
  from makeMove_member(2)[OF assms(2,3,4)] have
    "fst (snd (makeMove s sid room index mark)) =
       [(ToRoom room,
         GameEnd (if w = ''tie'' then None else Some (name_p p)) gs
           (if w = ''tie'' then ''tie'' else ''win''))]" by simp
  moreover from makeMove_accepted_room(2)[OF assms(2,3,4)] have
    "\<exists>rd'. map_of (rooms (snd (snd (makeMove s sid room index mark)))) room = Some rd' \<and>
           gameState rd' = gs" by blast
  ultimately show ?thesis using v win by blast
qed

theorem C10_gameEnd_winner_witness:
  "fst (snd (makeMove before_win ''a'' ''R1'' 2 ''X'')) =
     [(ToRoom ''R1'', GameEnd (Some ''Alice'') x_won_game ''win'')] \<and>
   winner x_won_game = Some ''X'' \<and> symbol alice_p = ''X'' \<and> name_p alice_p = ''Alice''"
  using C10_gameEnd_winner[OF reach_before_win before_win_alice before_win_move]
  by (simp add: alice_p_def)

text \<open>
  C4 (as the code has it). For a member's move the rejections are, in this order:
  InvalidState when the status is not active, WrongTurn when the symbol is not the
  side to move, and CellOccupied both when the index is outside [0,9) and when the
  addressed cell is not empty; the code has no separate out-of-range error. A rejected
  move sends one \<open>error\<close> event to the caller and leaves the whole server state, so also
  board, move count and turn, as it was.
\<close>

theorem C4_move_rejections:
  assumes "reach s" "map_of (rooms s) room = Some rd"
    "find (\<lambda>p. id_p p = sid) (players rd) = Some p"
  shows "fst (makeMove s sid room index mark) =
           map_option (\<lambda>e. if e = OutOfRange then CellOccupied else e)
             (spec_applyMove_error (gameState rd) index mark) \<and>
         (\<forall>e. fst (makeMove s sid room index mark) = Some e \<longrightarrow>
            snd (makeMove s sid room index mark) =
              ([(ToSocket sid, ErrorMsg (moveErrorMessage e))], s))"
proof -
  from assms(1) have "server_ok s" by (rule reach_server_ok)
  from this assms(2) have ok: "room_ok rd" by (rule server_ok_lookup)
  then have len: "length (board (gameState rd)) = 9" by (simp add: room_ok_def)
  show ?thesis
  proof (cases "applyMove (gameState rd) index mark")
    case (Inl e)
    from makeMove_member(1)[OF assms(2,3) Inl] have
      m: "makeMove s sid room index mark = (Some e, [(ToSocket sid, ErrorMsg (moveErrorMessage e))], s)" .
    from Inl len have "map_option (\<lambda>e. if e = OutOfRange then CellOccupied else e)
             (spec_applyMove_error (gameState rd) index mark) = Some e"
      by (auto simp: applyMove_def spec_applyMove_error_def cell_def Let_def
          split: if_splits option.splits)
    moreover have "fst (makeMove s sid room index mark) = Some e" unfolding m by simp
    ultimately have "fst (makeMove s sid room index mark) =
           map_option (\<lambda>e. if e = OutOfRange then CellOccupied else e)
             (spec_applyMove_error (gameState rd) index mark)"
      by (simp only:)
    moreover have "\<forall>e. fst (makeMove s sid room index mark) = Some e \<longrightarrow>
            snd (makeMove s sid room index mark) =
              ([(ToSocket sid, ErrorMsg (moveErrorMessage e))], s)"
      unfolding m by simp
    ultimately show ?thesis by (rule conjI)
  next
    case (Inr res)
    obtain gs w where res: "res = (gs, w)" by (cases res)
    with Inr have a: "applyMove (gameState rd) index mark = Inr (gs, w)" by simp
    note f = applyMove_Inr[OF a]
    from f(3) len have "0 \<le> index" "index < 9" "board (gameState rd) ! nat index = ''''"
      by (auto simp: cell_def split: if_splits)
    with f(1,2) have "spec_applyMove_error (gameState rd) index mark = None"
      by (simp add: spec_applyMove_error_def)
    with makeMove_accepted_room(1)[OF assms(2,3) a] show ?thesis by simp
  qed
qed

theorem C4_move_rejections_counterexample:
  "fst (makeMove two_players ''a'' ''R1'' 9 ''X'') = Some CellOccupied \<and>
   fst (snd (makeMove two_players ''a'' ''R1'' 9 ''X'')) =
     [(ToSocket ''a'', ErrorMsg ''Cell already occupied'')] \<and>
   spec_applyMove_error (gameState two_players_room) 9 ''X'' = Some OutOfRange"
  by (simp add: makeMove_def two_players_rooms two_players_room_def alice_p_def bob_p_def
      engine_defs spec_applyMove_error_def)

theorem C4_move_rejections_witness:
  "makeMove two_players ''a'' ''R1'' (- 1) ''X'' =
     (Some CellOccupied, [(ToSocket ''a'', ErrorMsg ''Cell already occupied'')], two_players) \<and>
   makeMove two_players ''a'' ''R1'' 0 ''O'' =
     (Some WrongTurn, [(ToSocket ''a'', ErrorMsg ''Not your turn'')], two_players)"
proof -
  have e1: "spec_applyMove_error (gameState two_players_room) (- 1) ''X'' = Some OutOfRange"
    and e2: "spec_applyMove_error (gameState two_players_room) 0 ''O'' = Some WrongTurn"
    by (simp_all add: spec_applyMove_error_def two_players_room_def freshGame_def)
  from C4_move_rejections[OF reach_two_players two_players_alice, of "- 1" "''X''"] e1
  have "makeMove two_players ''a'' ''R1'' (- 1) ''X'' =
     (Some CellOccupied, [(ToSocket ''a'', ErrorMsg ''Cell already occupied'')], two_players)"
    by (cases "makeMove two_players ''a'' ''R1'' (- 1) ''X''") simp
  moreover
  from C4_move_rejections[OF reach_two_players two_players_alice, of 0 "''O''"] e2
  have "makeMove two_players ''a'' ''R1'' 0 ''O'' =
     (Some WrongTurn, [(ToSocket ''a'', ErrorMsg ''Not your turn'')], two_players)"
    by (cases "makeMove two_players ''a'' ''R1'' 0 ''O''") simp
  ultimately show ?thesis by simp
qed

section \<open>Joining, leaving and the inactivity timer\<close>

text \<open>
  C1 (the code at a join that is accepted). Alice joins the unknown room R1, then Bob
  joins it. Both joins pass validation and are accepted: the player is stored and
  \<open>roomUpdate\<close> is broadcast, with \<open>gameStart\<close> at the second player. The last event to
  the joining connection is \<open>error\<close> 'Failed to join room', not \<open>joinSuccess\<close>:
  building the \<open>joinSuccess\<close> payload throws, and the handler's \<open>catch\<close> answers.
\<close>

theorem C1_accepted_join_answers_error:
  "handle init ''a'' (JoinRoom ''R1'' ''Alice'' '''' ''X'' False 1000) =
     (Some InternalFailure,
      [(ToRoom ''R1'', RoomUpdate [alice_p] (freshGame waiting) ''R1''),
       (ToSocket ''a'', ErrorMsg ''Failed to join room'')],
      one_player) \<and>
   handle one_player ''b'' (JoinRoom ''R1'' ''Bob'' '''' ''O'' False 2000) =
     (Some InternalFailure,
      [(ToRoom ''R1'', RoomUpdate [alice_p, bob_p] (freshGame waiting) ''R1''),
       (ToRoom ''R1'', GameStart [alice_p, bob_p] (freshGame active)),
       (ToSocket ''b'', ErrorMsg ''Failed to join room'')],
      two_players)"
  by (simp add: one_player_state two_players_state two_players_room_def init_def handler_defs
      alice_p_def bob_p_def freshGame_def Let_def)

lemma joinRoom_never_joinSuccess:
  "(t, JoinSuccess r p u) \<notin> set (fst (snd (joinRoom s sid room nm av mark isPrivate now)))"
  by (auto simp: joinRoom_def leavePrevious_def leaveRoom_def admit_def startGame_def
      inviteUrl_def Let_def split: option.splits prod.splits if_splits)

text \<open>
  C7 (the code when a player leaves mid-game). Alice and Bob are playing, timer 0 is
  pending. Bob disconnects: the game is finished, yet the room still holds handle 0 and
  the timer is still pending. When it fires, \<open>gameTimeout\<close> is broadcast to the room of
  the ended game and the room is reset to waiting.
\<close>

theorem C7_timer_survives_abandonment:
  "step two_players (Client ''b'' Disconnect) =
     ([(ToRoom ''R1'', PlayerLeft (freshGame finished) [alice_p]),
       (ToRoom ''R1'', RoomUpdate [alice_p] (freshGame finished) ''R1'')],
      abandoned) \<and>
   map_of (rooms abandoned) ''R1'' = Some abandoned_room \<and>
   gameStatus (gameState abandoned_room) = finished \<and>
   timeout abandoned_room = Some 0 \<and> timers abandoned 0 = Some ''R1'' \<and>
   fst (step abandoned (TimerFires 0)) =
     [(ToRoom ''R1'', GameTimeout ''Game timed out due to inactivity'')] \<and>
   rooms (snd (step abandoned (TimerFires 0))) = [(''R1'', timed_out_room)]"
  by (simp add: abandoned_state abandoned_room_def timed_out_room_def two_players_state
      two_players_room_def handler_defs alice_p_def bob_p_def freshGame_def Let_def fun_upd_twist)

text \<open>
  C6 (the code when a game was started on a finished board). Alice beat Bob, Bob left,
  Carol joined: joinRoom set the status to active and left board, move count and
  winner of the finished game in place. Carol disconnects from this active game: the
  game is finished, and its winner is X, not null.
\<close>

theorem C6_abandonment_keeps_old_winner:
  "map_of (rooms restarted) ''R1'' = Some restarted_room \<and>
   gameStatus (gameState restarted_room) = active \<and>
   winner (gameState restarted_room) = Some ''X'' \<and>
   map id_p (players restarted_room) = [''a'', ''c''] \<and>
   fst (step restarted (Client ''c'' Disconnect)) =
     [(ToRoom ''R1'', PlayerLeft x_won_game [alice_p]),
      (ToRoom ''R1'', RoomUpdate [alice_p] x_won_game ''R1'')] \<and>
   map_option gameState (map_of (rooms (snd (step restarted (Client ''c'' Disconnect)))) ''R1'')
     = Some x_won_game \<and>
   gameStatus x_won_game = finished \<and> winner x_won_game = Some ''X''"
  by (simp add: restarted_state restarted_room_def x_won_game_def handler_defs
      alice_p_def carol_p_def Let_def)

lemma leaveRoom_effect:
  assumes "map_of (rooms s) k = Some rd"
  shows "filter (\<lambda>p. id_p p \<noteq> sid) (players rd) = [] \<Longrightarrow>
           map_of (rooms (snd (leaveRoom sid k s))) k = None"
    and "filter (\<lambda>p. id_p p \<noteq> sid) (players rd) \<noteq> [] \<Longrightarrow>
           \<exists>rd'. map_of (rooms (snd (leaveRoom sid k s))) k = Some rd' \<and>
             players rd' = filter (\<lambda>p. id_p p \<noteq> sid) (players rd) \<and>
             winner (gameState rd') = winner (gameState rd) \<and>
             board (gameState rd') = board (gameState rd) \<and>
             gameStatus (gameState rd') =
               (if gameStatus (gameState rd) = active then finished
                else gameStatus (gameState rd))"
  using assms by (simp_all add: leaveRoom_def Let_def update_conv' delete_conv')

lemma resetRoom_room:
  assumes "map_of (rooms s) room = Some rd"
  shows "map_of (rooms (resetRoom room s)) room =
           Some (rd\<lparr>timeout := None,
                    gameState := freshGame (if length (players rd) = 2 then active else waiting),
                    players := map (\<lambda>p. p\<lparr>ready := False\<rparr>) (players rd)\<rparr>)"
  using assms by (simp add: resetRoom_def update_conv')

text \<open>
  C8 (as the code has it). When a pending inactivity timer fires and its room exists,
  \<open>gameTimeout\<close> is broadcast to the room and the room is reset: empty board, turn X,
  no winner, no moves, all ready flags cleared, the timer handle dropped, the players
  kept. The status after the reset is active when the room has two players, which is
  so whenever the game was active, and waiting otherwise.
\<close>

theorem C8_timeout_resets_room:
  assumes "reach s" "timers s h = Some room" "map_of (rooms s) room = Some rd"
  shows "fst (fireTimer h s) = [(ToRoom room, GameTimeout ''Game timed out due to inactivity'')] \<and>
         timers (snd (fireTimer h s)) h = None \<and>
         (\<exists>rd'. map_of (rooms (snd (fireTimer h s))) room = Some rd' \<and>
            gameState rd' = freshGame (if length (players rd) = 2 then active else waiting) \<and>
            players rd' = map (\<lambda>p. p\<lparr>ready := False\<rparr>) (players rd) \<and>
            timeout rd' = None \<and>
            (gameStatus (gameState rd) = active \<longrightarrow>
               gameStatus (gameState rd') = active \<and> length (players rd') = 2))"
proof -
  from assms(1) have "server_ok s" by (rule reach_server_ok)
  from this assms(3) have ok: "room_ok rd" by (rule server_ok_lookup)
  let ?s = "s\<lparr>timers := (timers s)(h := None)\<rparr>"
  let ?rd = "rd\<lparr>timeout := None,
                gameState := freshGame (if length (players rd) = 2 then active else waiting),
                players := map (\<lambda>p. p\<lparr>ready := False\<rparr>) (players rd)\<rparr>"
  from assms(3) have "map_of (rooms ?s) room = Some rd" by simp
  from resetRoom_room[OF this] have r: "map_of (rooms (resetRoom room ?s)) room = Some ?rd" .
  from assms(2) have f: "fireTimer h s =
      ([(ToRoom room, GameTimeout ''Game timed out due to inactivity'')], resetRoom room ?s)"
    by (simp add: fireTimer_def)
  have t: "timers (resetRoom room ?s) h = None"
    using assms(3)
    by (simp add: resetRoom_def clearRoomTimeout_def clearTimeout_def split: option.splits)
  from ok have a: "gameStatus (gameState rd) = active \<longrightarrow>
      gameStatus (gameState ?rd) = active \<and> length (players ?rd) = 2"
    by (simp add: room_ok_def freshGame_def)
  from f r t a show ?thesis by (simp add: freshGame_def)
qed

theorem C8_timeout_resets_room_counterexample:
  "timers two_players 0 = Some ''R1'' \<and>
   map_option (gameStatus \<circ> gameState) (map_of (rooms two_players) ''R1'') = Some active \<and>
   map_option (gameStatus \<circ> gameState) (map_of (rooms (snd (fireTimer 0 two_players))) ''R1'')
     = Some active"
  by (simp add: two_players_state two_players_room_def handler_defs freshGame_def)

theorem C8_timeout_resets_room_witness:
  "fst (fireTimer 0 two_players) =
     [(ToRoom ''R1'', GameTimeout ''Game timed out due to inactivity'')] \<and>
   (\<exists>rd'. map_of (rooms (snd (fireTimer 0 two_players))) ''R1'' = Some rd' \<and>
      gameState rd' = freshGame active \<and> players rd' = [alice_p, bob_p] \<and> timeout rd' = None)"
proof -
  have t: "timers two_players 0 = Some ''R1''" by (simp add: two_players_state)
  have p: "players two_players_room = [alice_p, bob_p]" by (simp add: two_players_room_def)
  have q: "map (\<lambda>p. p\<lparr>ready := False\<rparr>) [alice_p, bob_p] = [alice_p, bob_p]"
    by (simp add: alice_p_def bob_p_def)
  from C8_timeout_resets_room[OF reach_two_players t two_players_alice(1)] p q
  show ?thesis by auto
qed

section \<open>Rejected events\<close>

lemma joinRoom_rejection:
  assumes "joinRoom s sid room nm av mark isPrivate now = (Some e, outs, s')"
    "e \<noteq> InternalFailure" "e = RoomFull \<or> e = SymbolTaken \<longrightarrow> playerSockets s sid = None"
  shows "s' = s \<and> (\<exists>p. outs = [(ToSocket sid, p)])"
proof (cases "room = '''' \<or> nm = '''' \<or> mark = '''' \<or> length nm > 20 \<or> length room > 10")
  case True
  with assms(1) show ?thesis by (auto simp: joinRoom_def split: if_splits)
next
  case False
  obtain left s1 where l: "leavePrevious s sid = (left, s1)" by (cases "leavePrevious s sid")
  obtain rd s2 where c: "lookupOrCreate room isPrivate now s1 = (rd, s2)"
    by (cases "lookupOrCreate room isPrivate now s1")
  from assms(1,2) False l c have e: "e = RoomFull \<or> e = SymbolTaken"
    by (auto simp: joinRoom_def inviteUrl_def Let_def split: if_splits prod.splits)
  with assms(3) l have n: "left = []" "s1 = s" by (simp_all add: leavePrevious_def)
  have "s2 = s"
  proof (cases "map_of (rooms s) room")
    case None
    with c n have "players rd = []" by (auto simp: lookupOrCreate_def newRoom_def)
    with assms(1,2) False l c show ?thesis
      by (auto simp: joinRoom_def inviteUrl_def maxPlayersPerRoom_def Let_def
          split: if_splits prod.splits)
  next
    case (Some r)
    with c n show ?thesis by (simp add: lookupOrCreate_def)
  qed
  with assms(1,2) False l c n show ?thesis
    by (auto simp: joinRoom_def inviteUrl_def Let_def split: if_splits prod.splits)
qed

lemma makeMove_rejection:
  assumes "makeMove s sid room index mark = (Some e, outs, s')"
  shows "s' = s \<and> (\<exists>p. outs = [(ToSocket sid, p)])"
  using assms
  by (auto simp: makeMove_def split: option.splits sum.splits prod.splits)

lemma silent_rejections:
  "resetGame s sid room = (Some e, outs, s') \<Longrightarrow> s' = s \<and> outs = []"
  "playerReady s sid room = (Some e, outs, s') \<Longrightarrow> s' = s \<and> outs = []"
  "chatMessage s sid room message uuid now = (Some e, outs, s') \<Longrightarrow> s' = s \<and> outs = []"
  "disconnect s sid = (Some e, outs, s') \<Longrightarrow> s' = s \<and> outs = []"
  by (auto simp: resetGame_def playerReady_def chatMessage_def disconnect_def Let_def
      split: option.splits if_splits prod.splits)

text \<open>
  C2 (as the code has it). An event rejected with ValidationError, RoomNotFound,
  NotAMember, InvalidState, WrongTurn or CellOccupied, or with RoomFull or SymbolTaken
  when the connection is not mapped to a room, leaves the server state as it was and
  broadcasts nothing: joinRoom and makeMove send exactly one event, to the originating
  connection; resetGame, playerReady and chatMessage send nothing at all.
\<close>

theorem C2_rejections_scoped:
  assumes "handle s sid ev = (Some e, outs, s')" "e \<noteq> InternalFailure"
    "e = RoomFull \<or> e = SymbolTaken \<longrightarrow> playerSockets s sid = None"
  shows "s' = s \<and> scoped sid outs \<and> length outs \<le> 1 \<and> (outs \<noteq> [] \<longleftrightarrow> answers ev)"
proof (cases ev)
  case (JoinRoom room nm av mark isPrivate now)
  with assms(1) have "joinRoom s sid room nm av mark isPrivate now = (Some e, outs, s')" by simp
  from joinRoom_rejection[OF this assms(2,3)] JoinRoom show ?thesis
    by (auto simp: scoped_def)
next
  case (MakeMove room index mark)
  with assms(1) have "makeMove s sid room index mark = (Some e, outs, s')" by simp
  from makeMove_rejection[OF this] MakeMove show ?thesis by (auto simp: scoped_def)
next
  case (ResetGame room)
  with assms(1) silent_rejections(1)[of s sid room e outs s'] show ?thesis
    by (simp add: scoped_def)
next
  case (PlayerReady room)
  with assms(1) silent_rejections(2)[of s sid room e outs s'] show ?thesis
    by (simp add: scoped_def)
next
  case (Chat room message uuid now)
  with assms(1) silent_rejections(3)[of s sid room message uuid now e outs s'] show ?thesis
    by (simp add: scoped_def)
next
  case Disconnect
  with assms(1) silent_rejections(4)[of s sid e outs s'] show ?thesis
    by (simp add: scoped_def)
qed

theorem C2_rejections_scoped_counterexample:
  "handle init ''a'' (ResetGame ''R1'') = (Some RoomNotFound, [], init) \<and>
   \<not> error_contained init ''a'' (ResetGame ''R1'')"
  by (simp add: error_contained_def resetGame_def init_def)

theorem C2_rejections_scoped_witness:
  "handle two_players ''c'' (JoinRoom ''R1'' ''Carol'' '''' ''X'' False 3000) =
     (Some RoomFull, [(ToSocket ''c'', RoomFullMsg ''Room is full'')], two_players) \<and>
   scoped ''c'' [(ToSocket ''c'', RoomFullMsg ''Room is full'')] \<and>
   answers (JoinRoom ''R1'' ''Carol'' '''' ''X'' False 3000)"
proof -
  have l: "leavePrevious two_players ''c'' = ([], two_players)"
    by (rule leavePrevious_unmapped) (simp add: two_players_sockets)
  have "joinRoom two_players ''c'' ''R1'' ''Carol'' '''' ''X'' False 3000 =
      (Some RoomFull, [] @ [(ToSocket ''c'', RoomFullMsg ''Room is full'')], two_players)"
    by (rule joinRoom_rejects(1)[OF _ _ _ _ _ l two_players_alice(1)])
       (simp_all add: two_players_room_def)
  then have h: "handle two_players ''c'' (JoinRoom ''R1'' ''Carol'' '''' ''X'' False 3000) =
      (Some RoomFull, [(ToSocket ''c'', RoomFullMsg ''Room is full'')], two_players)" by simp
  have n: "RoomFull = RoomFull \<or> RoomFull = SymbolTaken \<longrightarrow> playerSockets two_players ''c'' = None"
    by (simp add: two_players_sockets)
  from C2_rejections_scoped[OF h _ n] h show ?thesis by simp
qed

text \<open>
  Why the rule above asks that a connection refused with RoomFull or SymbolTaken is not
  mapped to a room: Alice, playing in R1, asks to join R1 again with Bob's symbol. She
  is taken out of the room first, which ends the game and is broadcast, and only then
  refused.
\<close>

lemma joinRoom_refused_after_leaving:
  "fst (handle two_players ''a'' (JoinRoom ''R1'' ''Alice'' '''' ''O'' False 3000)) =
     Some SymbolTaken \<and>
   fst (snd (handle two_players ''a'' (JoinRoom ''R1'' ''Alice'' '''' ''O'' False 3000))) =
     [(ToRoom ''R1'', PlayerLeft (freshGame finished) [bob_p]),
      (ToRoom ''R1'', RoomUpdate [bob_p] (freshGame finished) ''R1''),
      (ToSocket ''a'', SymbolTakenMsg ''Symbol already taken'')] \<and>
   rooms (snd (snd (handle two_players ''a'' (JoinRoom ''R1'' ''Alice'' '''' ''O'' False 3000)))) =
     [(''R1'', two_players_room\<lparr>players := [bob_p], gameState := freshGame finished\<rparr>)]"
  by (simp add: two_players_state two_players_room_def handler_defs alice_p_def bob_p_def
      freshGame_def Let_def)


end
